theory Spec2Isabelle
  imports Complex_Main "HOL-Library.Signed_Division"
begin

section \<open>The etcd client selector of rpcx (clientselector/etcd_selector.go)\<close>

text \<open>
  The selector is one Go struct that its methods mutate; the model is a record that each
  method takes and returns.  A method that can stop with a runtime panic returns a sum:
  \<open>Inl\<close> the panic, \<open>Inr\<close> the state (and the Go return values) after a normal return.
  The background goroutine and the mutex are not modelled: every method runs to its end
  before the next one starts.
\<close>

subsection \<open>Values\<close>

text \<open>
  A \<open>*core.Client\<close> is a pointer: \<open>None\<close> is nil, \<open>Some c\<close> a live handle, compared by
  identity.  A Go \<open>error\<close> is \<open>None\<close> (nil) or \<open>Some\<close> message.
\<close>

type_synonym client = nat
type_synonym client_ptr = "client option"
type_synonym go_error = "string option"

datatype panic = IndexOutOfRange | SliceBoundsOutOfRange | NilDereference | InvalidArgumentToIntn

text \<open>
  What the selector does to the outside world, in the order it does it: a recursive
  \<open>KeysAPI.Get\<close> of the base path, a dial (network, address) through
  \<open>rpcx.NewDirectRPCClient\<close>, and \<open>Close\<close> on a client.
\<close>

datatype effect = RegistryGet | Dial string string | Close client

text \<open>
  \<open>rpcx.SelectMode\<close> is declared outside this file; these are the constants the file
  names, and \<open>OtherMode\<close> stands for every other value, carrying the text its \<open>String()\<close>
  gives.
\<close>

datatype SelectMode =
    RandomSelect | RoundRobin | WeightedRoundRobin | WeightedICMP | ConsistentHash | Closest
  | OtherMode string

text \<open>
  \<open>Weighted\<close> is declared outside this file; the fields are the ones this file writes.
  \<open>Server\<close> is an \<open>interface{}\<close> that always holds the server key, a string.
\<close>

record Weighted =
  Server :: string
  Weight :: int
  EffectiveWeight :: int

text \<open>An etcd node (\<open>client.Node\<close>) and a response (\<open>client.Response\<close>), with the fields read here.\<close>

datatype node = MkNode (Key: string) (Value: string) (Dir: bool) (Nodes: "node list")

record response =
  Action :: string
  Node :: "node option"

text \<open>
  The collaborators that are not in this file, taken as parameters: the dial (it returns a
  connection and an error), the query and integer parsers of the Go library (\<open>None\<close> is
  the parse error, and a parsed query is its \<open>Get\<close>), \<open>net.SplitHostPort\<close> (its host),
  the ICMP probe (its round-trip time) with its weight transform, the default hash, the
  weighted round-robin step (it returns the records as it leaves them and the record it
  picked, or nil) and the proximity ranking.
\<close>

record env =
  NewDirectRPCClient :: "string \<Rightarrow> string \<Rightarrow> client_ptr \<times> go_error"
  ParseQuery :: "string \<Rightarrow> (string \<Rightarrow> string) option"
  Atoi :: "string \<Rightarrow> int option"
  SplitHostPort :: "string \<Rightarrow> string"
  Ping :: "string \<Rightarrow> int"
  CalculateWeight :: "int \<Rightarrow> int"
  JumpConsistentHash :: "int \<Rightarrow> string list \<Rightarrow> int"
  nextWeighted :: "Weighted option list \<Rightarrow> Weighted option list \<times> Weighted option"
  getClosestServer :: "real \<Rightarrow> real \<Rightarrow> (string \<rightharpoonup> string) \<Rightarrow> string list"

text \<open>
  The struct.  \<open>clientAndServer\<close> is a Go map whose values are pointers, so a key can be
  present with a nil value.  \<open>WeightedServers\<close> is a slice of pointers.  \<open>currentServer\<close>
  and \<open>len\<close> are Go ints, kept as unbounded integers: both stay within the length of
  \<open>Servers\<close>.  \<open>Latitude\<close> and \<open>Longitude\<close> are floats that the selector only hands to
  the proximity ranking.  The etcd endpoints and handle, the timeouts, the mutex, the
  random source and the rpcx client are left out: the first are configuration, the mutex
  has no role in a sequential run, and a draw of the random source is an argument of
  \<open>Select\<close>.  \<open>effects\<close> is not a field of the struct: it is the record of what the
  methods did to the outside world so far.
\<close>

record EtcdClientSelector =
  BasePath :: string
  Servers :: "string list"
  Group :: string
  clientAndServer :: "string \<rightharpoonup> client_ptr"
  metadata :: "string \<rightharpoonup> string"
  Latitude :: real
  Longitude :: real
  WeightedServers :: "Weighted option list"
  SelectMode :: SelectMode
  currentServer :: int
  len :: int
  HashServiceAndArgs :: "(int \<Rightarrow> string list \<Rightarrow> int) option"
  effects :: "effect list"

subsection \<open>Library functions of Go used by the selector\<close>

text \<open>\<open>strings.Split(s, "@")\<close> for a one-byte separator: always at least one part.\<close>

fun Split :: "string \<Rightarrow> char \<Rightarrow> string list" where
  "Split [] sep = [[]]"
| "Split (x # xs) sep =
     (if x = sep then [] # Split xs sep
      else (case Split xs sep of [] \<Rightarrow> [[x]] | y # ys \<Rightarrow> (x # y) # ys))"

fun has_prefix :: "string \<Rightarrow> string \<Rightarrow> bool" where
  "has_prefix s [] = True"
| "has_prefix [] (p # ps) = False"
| "has_prefix (x # xs) (p # ps) = (x = p \<and> has_prefix xs ps)"

definition TrimPrefix :: "string \<Rightarrow> string \<Rightarrow> string" where
  "TrimPrefix s p = (if has_prefix s p then drop (length p) s else s)"

text \<open>Reading a map of pointers: an absent key reads as nil.\<close>

definition lookup_client :: "(string \<rightharpoonup> client_ptr) \<Rightarrow> string \<Rightarrow> client_ptr" where
  "lookup_client m k = (case m k of None \<Rightarrow> None | Some p \<Rightarrow> p)"

text \<open>\<open>xs[i]\<close> for a Go int \<open>i\<close>: a panic outside the slice.\<close>

definition index_at :: "'a list \<Rightarrow> int \<Rightarrow> panic + 'a" where
  "index_at xs i = (if 0 \<le> i \<and> i < int (length xs) then Inr (xs ! nat i) else Inl IndexOutOfRange)"

text \<open>\<open>rnd.Intn(n)\<close>: a panic for \<open>n \<le> 0\<close>, else some value below \<open>n\<close>; \<open>r\<close> is the draw.\<close>

definition Intn :: "nat \<Rightarrow> int \<Rightarrow> panic + int" where
  "Intn r n = (if n \<le> 0 then Inl InvalidArgumentToIntn else Inr (int r mod n))"

subsection \<open>The connection cache\<close>

definition getCachedClient ::
  "env \<Rightarrow> EtcdClientSelector \<Rightarrow> string \<Rightarrow> panic + (EtcdClientSelector \<times> client_ptr \<times> go_error)" where
  "getCachedClient e s server =
     (case lookup_client (clientAndServer s) server of
        Some c \<Rightarrow> Inr (s, Some c, None)
      | None \<Rightarrow>
          (let ss = Split server (CHR ''@'') in
           if length ss < 2 then Inl IndexOutOfRange
           else
             (let (c, err) = NewDirectRPCClient e (ss ! 0) (ss ! 1) in
              Inr (s\<lparr>clientAndServer := (clientAndServer s)(server \<mapsto> c),
                     effects := effects s @ [Dial (ss ! 0) (ss ! 1)]\<rparr>, c, err))))"

text \<open>
  \<open>HandleFailedClient\<close> ranges over the map; Go does not fix the order, so \<open>order\<close> is the
  sequence of keys this run of the loop would visit.  The body ends in an unconditional
  \<open>break\<close>, so only the first key is looked at.  The argument is a non-nil client.
\<close>

definition HandleFailedClient ::
  "EtcdClientSelector \<Rightarrow> string list \<Rightarrow> client \<Rightarrow> EtcdClientSelector" where
  "HandleFailedClient s order cl =
     (case order of
        [] \<Rightarrow> s
      | k # _ \<Rightarrow>
          (let s1 = (if lookup_client (clientAndServer s) k = Some cl
                     then s\<lparr>clientAndServer := (clientAndServer s)(k := None)\<rparr> else s)
           in s1\<lparr>effects := effects s1 @ [Close cl]\<rparr>))"

fun AllClients_loop ::
  "env \<Rightarrow> string list \<Rightarrow> effect list \<Rightarrow> client_ptr list \<Rightarrow> panic + (effect list \<times> client_ptr list)" where
  "AllClients_loop e [] eff clients = Inr (eff, clients)"
| "AllClients_loop e (sv # svs) eff clients =
     (let ss = Split sv (CHR ''@'') in
      if length ss < 2 then Inl IndexOutOfRange
      else
        (let (c, err) = NewDirectRPCClient e (ss ! 0) (ss ! 1);
             eff1 = eff @ [Dial (ss ! 0) (ss ! 1)]
         in if err \<noteq> None then AllClients_loop e svs eff1 clients
            else AllClients_loop e svs eff1 (clients @ [c])))"

definition AllClients :: "env \<Rightarrow> EtcdClientSelector \<Rightarrow> panic + (EtcdClientSelector \<times> client_ptr list)" where
  "AllClients e s =
     (case AllClients_loop e (Servers s) (effects s) [] of
        Inl p \<Rightarrow> Inl p
      | Inr (eff, clients) \<Rightarrow> Inr (s\<lparr>effects := eff\<rparr>, clients))"

subsection \<open>Reconciliation with the registry\<close>

text \<open>One step of the loop of \<open>removeInactiveServers\<close>, for the index \<open>k\<close>.\<close>

definition remove_at :: "'a list \<Rightarrow> nat \<Rightarrow> 'a list" where
  "remove_at xs k = take k xs @ drop (Suc k) xs"

definition removeInactive_step :: "EtcdClientSelector \<Rightarrow> nat \<Rightarrow> panic + EtcdClientSelector" where
  "removeInactive_step s k =
     (if length (Servers s) \<le> k then Inl IndexOutOfRange
      else if length (WeightedServers s) \<le> k then Inl SliceBoundsOutOfRange
      else
        (let removedServer = Servers s ! k;
             s1 = s\<lparr>Servers := remove_at (Servers s) k,
                    WeightedServers := remove_at (WeightedServers s) k\<rparr>
         in case lookup_client (clientAndServer s1) removedServer of
              None \<Rightarrow> Inr s1
            | Some c \<Rightarrow>
                Inr (s1\<lparr>clientAndServer := (clientAndServer s1)(removedServer := None),
                        effects := effects s1 @ [Close c]\<rparr>)))"

text \<open>The loop runs from the last index of \<open>inactiveServers\<close> down to the first.\<close>

fun removeInactive_loop :: "EtcdClientSelector \<Rightarrow> nat list \<Rightarrow> panic + EtcdClientSelector" where
  "removeInactive_loop s [] = Inr s"
| "removeInactive_loop s (k # ks) =
     (case removeInactive_step s k of
        Inl p \<Rightarrow> Inl p
      | Inr s1 \<Rightarrow> removeInactive_loop s1 ks)"

definition removeInactiveServers :: "EtcdClientSelector \<Rightarrow> nat list \<Rightarrow> panic + EtcdClientSelector" where
  "removeInactiveServers s inactiveServers = removeInactive_loop s (rev inactiveServers)"

text \<open>The body of the loop of \<open>createWeighted\<close> for the node \<open>n\<close> at index \<open>i\<close>.\<close>

definition createWeighted_step ::
  "env \<Rightarrow> EtcdClientSelector \<Rightarrow> nat list \<Rightarrow> nat \<Rightarrow> node \<Rightarrow> panic + (EtcdClientSelector \<times> nat list)" where
  "createWeighted_step e s inactiveServers i n =
     (if length (WeightedServers s) \<le> i then Inl IndexOutOfRange
      else
        (let key = TrimPrefix (Key n) (BasePath s @ ''/'');
             w0 = \<lparr>Server = key, Weight = 1, EffectiveWeight = 1\<rparr>;
             md = (metadata s)(key \<mapsto> Value n)
         in case ParseQuery e (Value n) of
              None \<Rightarrow>
                Inr (s\<lparr>WeightedServers := (WeightedServers s)[i := Some w0], metadata := md\<rparr>,
                     inactiveServers)
            | Some v \<Rightarrow>
                (let w = v ''weight'';
                     state = v ''state'';
                     group = v ''group'';
                     inactive1 =
                       (if (state \<noteq> '''' \<and> state \<noteq> ''active'') \<or> Group s \<noteq> group
                        then inactiveServers @ [i] else inactiveServers);
                     w1 = (if w \<noteq> ''''
                           then (case Atoi e w of
                                   Some weight \<Rightarrow> w0\<lparr>Weight := weight, EffectiveWeight := weight\<rparr>
                                 | None \<Rightarrow> w0)
                           else w0)
                 in Inr (s\<lparr>WeightedServers := (WeightedServers s)[i := Some w1], metadata := md\<rparr>,
                         inactive1))))"

fun createWeighted_loop ::
  "env \<Rightarrow> EtcdClientSelector \<Rightarrow> nat list \<Rightarrow> nat \<Rightarrow> node list \<Rightarrow> panic + (EtcdClientSelector \<times> nat list)" where
  "createWeighted_loop e s inactiveServers i [] = Inr (s, inactiveServers)"
| "createWeighted_loop e s inactiveServers i (n # ns) =
     (case createWeighted_step e s inactiveServers i n of
        Inl p \<Rightarrow> Inl p
      | Inr (s1, inactive1) \<Rightarrow> createWeighted_loop e s1 inactive1 (Suc i) ns)"

definition createWeighted :: "env \<Rightarrow> EtcdClientSelector \<Rightarrow> node list \<Rightarrow> panic + EtcdClientSelector" where
  "createWeighted e s nodes =
     (case createWeighted_loop e
             (s\<lparr>WeightedServers := replicate (length (Servers s)) None\<rparr>) [] 0 nodes of
        Inl p \<Rightarrow> Inl p
      | Inr (s1, inactiveServers) \<Rightarrow> removeInactiveServers s1 inactiveServers)"

text \<open>The loop of \<open>pullServers\<close> that sets the weights from the ICMP probe.\<close>

fun icmp_loop :: "env \<Rightarrow> Weighted option list \<Rightarrow> panic + Weighted option list" where
  "icmp_loop e [] = Inr []"
| "icmp_loop e (w # ws) =
     (case w of
        None \<Rightarrow> Inl NilDereference
      | Some wr \<Rightarrow>
          (let ss = Split (Server wr) (CHR ''@'') in
           if length ss < 2 then Inl IndexOutOfRange
           else
             (let host = SplitHostPort e (ss ! 1);
                  rtt = CalculateWeight e (Ping e host)
              in case icmp_loop e ws of
                   Inl p \<Rightarrow> Inl p
                 | Inr ws1 \<Rightarrow> Inr (Some (wr\<lparr>Weight := rtt, EffectiveWeight := rtt\<rparr>) # ws1))))"

text \<open>
  \<open>pullServers\<close>: \<open>(resp, err)\<close> is what \<open>KeysAPI.Get\<close> returns to this call.
\<close>

definition pullServers ::
  "env \<Rightarrow> EtcdClientSelector \<Rightarrow> response \<times> go_error \<Rightarrow> panic + EtcdClientSelector" where
  "pullServers e s0 get =
     (let s = s0\<lparr>effects := effects s0 @ [RegistryGet]\<rparr>;
          (resp, err) = get
      in if err = None \<and> Node resp \<noteq> None then
           (let nodes = Nodes (the (Node resp)) in
            if length nodes > 0 then
              (let servers = map (\<lambda>n. TrimPrefix (Key n) (BasePath s @ ''/'')) nodes in
               case createWeighted e (s\<lparr>Servers := servers\<rparr>) nodes of
                 Inl p \<Rightarrow> Inl p
               | Inr s1 \<Rightarrow>
                   (case (if SelectMode s1 = WeightedICMP
                          then (case icmp_loop e (WeightedServers s1) of
                                  Inl p \<Rightarrow> Inl p
                                | Inr ws \<Rightarrow> Inr (s1\<lparr>WeightedServers := ws\<rparr>))
                          else Inr s1) of
                      Inl p \<Rightarrow> Inl p
                    | Inr s2 \<Rightarrow>
                        (let s3 = s2\<lparr>len := int (length (Servers s2))\<rparr> in
                         Inr (if len s3 > 0
                              then s3\<lparr>currentServer := currentServer s3 smod len s3\<rparr>
                              else s3))))
            else Inr (s\<lparr>clientAndServer := Map.empty\<rparr>))
         else Inr s)"

text \<open>
  The body of the loop of \<open>watch\<close> for one notification \<open>res\<close> that \<open>watcher.Next\<close>
  returned without error; \<open>get\<close> is what the registry would answer to a pull made now.
\<close>

definition watch_step ::
  "env \<Rightarrow> EtcdClientSelector \<Rightarrow> response \<Rightarrow> response \<times> go_error \<Rightarrow> panic + EtcdClientSelector" where
  "watch_step e s res get =
     (if Action res = ''expire'' then
        (case pullServers e s get of
           Inl p \<Rightarrow> Inl p
         | Inr s1 \<Rightarrow>
             (case Node res of
                None \<Rightarrow> Inl NilDereference
              | Some n \<Rightarrow>
                  if \<not> Dir n then
                    (let removedServer = TrimPrefix (Key n) (BasePath s1 @ ''/'') in
                     Inr (s1\<lparr>clientAndServer := (clientAndServer s1)(removedServer := None)\<rparr>))
                  else Inr s1))
      else if Action res = ''set'' \<or> Action res = ''update'' then pullServers e s get
      else if Action res = ''delete'' then pullServers e s get
      else Inr s)"

text \<open>
  The loop of \<open>watch\<close> over the notifications that arrive, each paired with the registry's
  answer at that time; it ends at the first error of \<open>watcher.Next\<close>.
\<close>

fun watch ::
  "env \<Rightarrow> EtcdClientSelector \<Rightarrow> ((response \<times> go_error) \<times> (response \<times> go_error)) list
     \<Rightarrow> panic + EtcdClientSelector" where
  "watch e s [] = Inr s"
| "watch e s (((res, err), get) # rest) =
     (if err \<noteq> None then Inr s
      else (case watch_step e s res get of
              Inl p \<Rightarrow> Inl p
            | Inr s1 \<Rightarrow> watch e s1 rest))"

subsection \<open>Selection\<close>

text \<open>
  \<open>Select\<close>: \<open>r\<close> is the draw of the random source, \<open>opts\<close> the call's options.
\<close>

definition Select ::
  "env \<Rightarrow> EtcdClientSelector \<Rightarrow> nat \<Rightarrow> string list
     \<Rightarrow> panic + (EtcdClientSelector \<times> client_ptr \<times> go_error)" where
  "Select e s r opts =
     (if len s = 0 then Inr (s, None, Some ''No available service'')
      else
        (case SelectMode s of
           RandomSelect \<Rightarrow>
             (case Intn r (len s) of
                Inl p \<Rightarrow> Inl p
              | Inr i \<Rightarrow>
                  (let s1 = s\<lparr>currentServer := i\<rparr> in
                   case index_at (Servers s1) (currentServer s1) of
                     Inl p \<Rightarrow> Inl p
                   | Inr server \<Rightarrow> getCachedClient e s1 server))
         | RoundRobin \<Rightarrow>
             (let s1 = s\<lparr>currentServer := (currentServer s + 1) smod len s\<rparr> in
              case index_at (Servers s1) (currentServer s1) of
                Inl p \<Rightarrow> Inl p
              | Inr server \<Rightarrow> getCachedClient e s1 server)
         | ConsistentHash \<Rightarrow>
             (let h = (case HashServiceAndArgs s of None \<Rightarrow> JumpConsistentHash e | Some f \<Rightarrow> f);
                  s1 = s\<lparr>HashServiceAndArgs := Some h, currentServer := h (len s) opts\<rparr>
              in case index_at (Servers s1) (currentServer s1) of
                   Inl p \<Rightarrow> Inl p
                 | Inr server \<Rightarrow> getCachedClient e s1 server)
         | WeightedRoundRobin \<Rightarrow>
             (case nextWeighted e (WeightedServers s) of
                (ws, None) \<Rightarrow> Inl NilDereference
              | (ws, Some w) \<Rightarrow> getCachedClient e (s\<lparr>WeightedServers := ws\<rparr>) (Server w))
         | WeightedICMP \<Rightarrow>
             (case nextWeighted e (WeightedServers s) of
                (ws, None) \<Rightarrow> Inl NilDereference
              | (ws, Some w) \<Rightarrow> getCachedClient e (s\<lparr>WeightedServers := ws\<rparr>) (Server w))
         | Closest \<Rightarrow>
             (let closestServers = getClosestServer e (Latitude s) (Longitude s) (metadata s) in
              case Intn r (int (length closestServers)) of
                Inl p \<Rightarrow> Inl p
              | Inr selected \<Rightarrow>
                  (case index_at closestServers selected of
                     Inl p \<Rightarrow> Inl p
                   | Inr server \<Rightarrow> getCachedClient e s server))
         | OtherMode name \<Rightarrow> Inr (s, None, Some (''not supported SelectMode: '' @ name))))"

subsection \<open>Construction\<close>

text \<open>
  \<open>NewEtcdClientSelector\<close> fills the struct and calls \<open>start\<close>, which pulls once when the
  etcd client could be created (\<open>cli_ok\<close>).
\<close>

definition empty_selector :: "string \<Rightarrow> SelectMode \<Rightarrow> EtcdClientSelector" where
  "empty_selector servicePath sm =
     \<lparr>BasePath = servicePath, Servers = [], Group = '''', clientAndServer = Map.empty,
      metadata = Map.empty, Latitude = 0, Longitude = 0, WeightedServers = [],
      SelectMode = sm, currentServer = 0, len = 0, HashServiceAndArgs = None, effects = []\<rparr>"

definition start :: "env \<Rightarrow> EtcdClientSelector \<Rightarrow> bool \<Rightarrow> response \<times> go_error \<Rightarrow> panic + EtcdClientSelector" where
  "start e s cli_ok get = (if \<not> cli_ok then Inr s else pullServers e s get)"

definition NewEtcdClientSelector ::
  "env \<Rightarrow> string \<Rightarrow> SelectMode \<Rightarrow> bool \<Rightarrow> response \<times> go_error \<Rightarrow> panic + EtcdClientSelector" where
  "NewEtcdClientSelector e servicePath sm cli_ok get = start e (empty_selector servicePath sm) cli_ok get"

subsection \<open>The methods as calls\<close>

text \<open>Every method of the selector that can change it, as one call with its inputs.\<close>

datatype call =
    CallPull "response \<times> go_error"
  | CallWatch "((response \<times> go_error) \<times> (response \<times> go_error)) list"
  | CallCreateWeighted "node list"
  | CallRemoveInactive "nat list"
  | CallGetCached string
  | CallHandleFailed "string list" client
  | CallAllClients
  | CallSelect nat "string list"

fun state_after :: "panic + (EtcdClientSelector \<times> 'a) \<Rightarrow> panic + EtcdClientSelector" where
  "state_after (Inl p) = Inl p"
| "state_after (Inr (s, x)) = Inr s"

fun invoke :: "env \<Rightarrow> EtcdClientSelector \<Rightarrow> call \<Rightarrow> panic + EtcdClientSelector" where
  "invoke e s (CallPull get) = pullServers e s get"
| "invoke e s (CallWatch evs) = watch e s evs"
| "invoke e s (CallCreateWeighted nodes) = createWeighted e s nodes"
| "invoke e s (CallRemoveInactive ks) = removeInactiveServers s ks"
| "invoke e s (CallGetCached server) = state_after (getCachedClient e s server)"
| "invoke e s (CallHandleFailed order cl) = Inr (HandleFailedClient s order cl)"
| "invoke e s CallAllClients = state_after (AllClients e s)"
| "invoke e s (CallSelect r opts) = state_after (Select e s r opts)"

subsection \<open>Observations used in the statements\<close>

text \<open>The key under which a registry node is known to the selector.\<close>

definition server_key :: "EtcdClientSelector \<Rightarrow> node \<Rightarrow> string" where
  "server_key s n = TrimPrefix (Key n) (BasePath s @ ''/'')"

text \<open>
  The address sequence and the weighted records are aligned: as many records as addresses,
  none nil, and the i-th record is the one of the i-th address.
\<close>

definition aligned :: "EtcdClientSelector \<Rightarrow> bool" where
  "aligned s = (map (map_option Server) (WeightedServers s) = map Some (Servers s))"

text \<open>How many pulls, how many dials and which closes a selector has made.\<close>

definition pulls :: "EtcdClientSelector \<Rightarrow> nat" where
  "pulls s = count_list (effects s) RegistryGet"

fun is_dial :: "effect \<Rightarrow> bool" where
  "is_dial (Dial network address) = True"
| "is_dial x = False"

definition dials :: "EtcdClientSelector \<Rightarrow> nat" where
  "dials s = length (filter is_dial (effects s))"

fun closed_of :: "effect list \<Rightarrow> client list" where
  "closed_of [] = []"
| "closed_of (Close c # es) = c # closed_of es"
| "closed_of (x # es) = closed_of es"

definition closed :: "EtcdClientSelector \<Rightarrow> client list" where
  "closed s = closed_of (effects s)"

text \<open>The entry of the connection cache for a key, if the key is present.\<close>

definition cached :: "string \<Rightarrow> EtcdClientSelector \<Rightarrow> client_ptr option" where
  "cached k s = clientAndServer s k"

text \<open>What a caller of \<open>Select\<close> or \<open>getCachedClient\<close> gets back: the panic, or the pair returned.\<close>

fun outcome :: "panic + (EtcdClientSelector \<times> client_ptr \<times> go_error) \<Rightarrow> panic + (client_ptr \<times> go_error)" where
  "outcome (Inl p) = Inl p"
| "outcome (Inr (s, r)) = Inr r"

text \<open>The get failed: it returned an error or a response without a node.\<close>

definition pull_failed :: "response \<times> go_error \<Rightarrow> bool" where
  "pull_failed get = (snd get \<noteq> None \<or> Node (fst get) = None)"

text \<open>The get succeeded and the node it returned has these children.\<close>

definition pulled_children :: "response \<times> go_error \<Rightarrow> node list option" where
  "pulled_children get =
     (if snd get = None then (case Node (fst get) of None \<Rightarrow> None | Some n \<Rightarrow> Some (Nodes n))
      else None)"

text \<open>The get succeeded and the node it returned has at least one child.\<close>

definition has_children :: "response \<times> go_error \<Rightarrow> bool" where
  "has_children get = (case pulled_children get of Some (n # ns) \<Rightarrow> True | _ \<Rightarrow> False)"

text \<open>
  The calls that write the metadata map, and the registry nodes a call enters into it, in
  the order it enters them: the nodes passed to \<open>createWeighted\<close>, the children a pull
  is answered with, and for the watch loop the children of every pull it makes before
  the stream fails.
\<close>

definition touches_metadata :: "call \<Rightarrow> bool" where
  "touches_metadata c =
     (case c of CallPull get \<Rightarrow> True | CallWatch evs \<Rightarrow> True | CallCreateWeighted nodes \<Rightarrow> True
      | _ \<Rightarrow> False)"

definition pulled_nodes :: "response \<times> go_error \<Rightarrow> node list" where
  "pulled_nodes get = (case pulled_children get of Some nodes \<Rightarrow> nodes | None \<Rightarrow> [])"

fun watched_nodes :: "((response \<times> go_error) \<times> (response \<times> go_error)) list \<Rightarrow> node list" where
  "watched_nodes [] = []"
| "watched_nodes (((res, err), get) # rest) =
     (if err \<noteq> None then []
      else (if Action res \<in> {''expire'', ''set'', ''update'', ''delete''} then pulled_nodes get else [])
           @ watched_nodes rest)"

definition listed_nodes :: "call \<Rightarrow> node list" where
  "listed_nodes c =
     (case c of
        CallCreateWeighted nodes \<Rightarrow> nodes
      | CallPull get \<Rightarrow> pulled_nodes get
      | CallWatch evs \<Rightarrow> watched_nodes evs
      | _ \<Rightarrow> [])"

text \<open>
  The metadata map after the nodes were entered one after the other, each under its key
  with its value, a later node overwriting an earlier one of the same key.
\<close>

fun enter_nodes :: "string \<Rightarrow> (string \<rightharpoonup> string) \<Rightarrow> node list \<Rightarrow> (string \<rightharpoonup> string)" where
  "enter_nodes base md [] = md"
| "enter_nodes base md (n # ns) =
     enter_nodes base (md(TrimPrefix (Key n) (base @ ''/'') \<mapsto> Value n)) ns"

subsection \<open>A sample environment and sample registry contents\<close>

text \<open>
  For the concrete runs: a dial that reaches the addresses of a table and is refused
  elsewhere; a query parser and an integer parser that agree with \<open>url.ParseQuery\<close> and
  \<open>strconv.Atoi\<close> on plain \<open>k=v&k=v\<close> strings and on unsigned decimals; a proximity
  ranking that finds no server with coordinates.
\<close>

definition digit_of :: "char \<Rightarrow> int option" where
  "digit_of c = map_of (zip ''0123456789'' [0, 1, 2, 3, 4, 5, 6, 7, 8, 9]) c"

fun decimal_from :: "int \<Rightarrow> string \<Rightarrow> int option" where
  "decimal_from acc [] = Some acc"
| "decimal_from acc (c # cs) =
     (case digit_of c of None \<Rightarrow> None | Some d \<Rightarrow> decimal_from (10 * acc + d) cs)"

definition plain_Atoi :: "string \<Rightarrow> int option" where
  "plain_Atoi w = (if w = [] then None else decimal_from 0 w)"

definition plain_Get :: "string list \<Rightarrow> string \<Rightarrow> string" where
  "plain_Get segs k =
     (case find (\<lambda>seg. seg \<noteq> [] \<and> takeWhile (\<lambda>c. c \<noteq> CHR ''='') seg = k) segs of
        None \<Rightarrow> []
      | Some seg \<Rightarrow> drop 1 (dropWhile (\<lambda>c. c \<noteq> CHR ''='') seg))"

definition plain_ParseQuery :: "string \<Rightarrow> (string \<Rightarrow> string) option" where
  "plain_ParseQuery q = Some (plain_Get (Split q (CHR ''&'')))"

definition table_dial :: "(string \<times> client) list \<Rightarrow> string \<Rightarrow> string \<Rightarrow> client_ptr \<times> go_error" where
  "table_dial up network address =
     (case map_of up address of
        None \<Rightarrow> (None, Some ''connection refused'')
      | Some c \<Rightarrow> (Some c, None))"

definition sample_env :: "(string \<times> client) list \<Rightarrow> env" where
  "sample_env up =
     \<lparr>NewDirectRPCClient = table_dial up, ParseQuery = plain_ParseQuery, Atoi = plain_Atoi,
      SplitHostPort = takeWhile (\<lambda>c. c \<noteq> CHR '':''), Ping = (\<lambda>host. 0),
      CalculateWeight = (\<lambda>rtt. 1), JumpConsistentHash = (\<lambda>n opts. 0),
      nextWeighted = (\<lambda>ws. (ws, case ws of [] \<Rightarrow> None | w # _ \<Rightarrow> w)),
      getClosestServer = (\<lambda>lat lon md. [])\<rparr>"

text \<open>
  The sample environment with a proximity ranking for a registry in which only the key
  \<open>k\<close> can declare coordinates: the key is the closest server when its metadata declares
  \<open>latitude\<close> and \<open>longitude\<close> as plain decimals, and no server is otherwise.
\<close>

definition plain_decimal :: "string \<Rightarrow> bool" where
  "plain_decimal w =
     (let u = (case w of [] \<Rightarrow> [] | c # cs \<Rightarrow> if c = CHR ''-'' then cs else w);
          whole = takeWhile (\<lambda>c. digit_of c \<noteq> None) u;
          rest = dropWhile (\<lambda>c. digit_of c \<noteq> None) u
      in whole \<noteq> [] \<and>
         (case rest of
            [] \<Rightarrow> True
          | c # cs \<Rightarrow> c = CHR ''.'' \<and> cs \<noteq> [] \<and> list_all (\<lambda>d. digit_of d \<noteq> None) cs))"

definition has_coordinates :: "string \<Rightarrow> bool" where
  "has_coordinates v =
     (case plain_ParseQuery v of
        None \<Rightarrow> False
      | Some q \<Rightarrow> plain_decimal (q ''latitude'') \<and> plain_decimal (q ''longitude''))"

definition near_env :: "(string \<times> client) list \<Rightarrow> string \<Rightarrow> env" where
  "near_env up k =
     (sample_env up)\<lparr>getClosestServer :=
        (\<lambda>lat lon md. case md k of
                         None \<Rightarrow> []
                       | Some v \<Rightarrow> if has_coordinates v then [k] else [])\<rparr>"

text \<open>The registry's answer to a get of \<open>/rpcx/Arith\<close> with the given children.\<close>

fun child_nodes :: "(string \<times> string) list \<Rightarrow> node list" where
  "child_nodes [] = []"
| "child_nodes ((k, v) # kvs) = MkNode (''/rpcx/Arith/'' @ k) v False [] # child_nodes kvs"

definition listing :: "(string \<times> string) list \<Rightarrow> response \<times> go_error" where
  "listing kvs = (\<lparr>Action = ''get'', Node = Some (MkNode ''/rpcx/Arith'' [] True (child_nodes kvs))\<rparr>, None)"

text \<open>A notification of the watch stream about the child \<open>k\<close>.\<close>

definition notification :: "string \<Rightarrow> string \<Rightarrow> string \<Rightarrow> response" where
  "notification action k v = \<lparr>Action = action, Node = Some (MkNode (''/rpcx/Arith/'' @ k) v False [])\<rparr>"

text \<open>
  The selector for \<open>/rpcx/Arith\<close> as one pull leaves it when the registry lists the given
  keys, each with the value \<open>weight=1\<close>, with the given mode and connection cache, after
  the given effects.
\<close>

fun unit_weights :: "string list \<Rightarrow> Weighted option list" where
  "unit_weights [] = []"
| "unit_weights (k # ks) = Some \<lparr>Server = k, Weight = 1, EffectiveWeight = 1\<rparr> # unit_weights ks"

fun unit_metadata :: "string list \<Rightarrow> (string \<rightharpoonup> string)" where
  "unit_metadata [] = Map.empty"
| "unit_metadata (k # ks) = (unit_metadata ks)(k \<mapsto> ''weight=1'')"

definition serving ::
  "SelectMode \<Rightarrow> string list \<Rightarrow> (string \<rightharpoonup> client_ptr) \<Rightarrow> effect list \<Rightarrow> EtcdClientSelector" where
  "serving sm keys cache eff =
     \<lparr>BasePath = ''/rpcx/Arith'', Servers = keys, Group = [], clientAndServer = cache,
      metadata = unit_metadata (rev keys), Latitude = 0, Longitude = 0,
      WeightedServers = unit_weights keys, SelectMode = sm, currentServer = 0,
      len = int (length keys), HashServiceAndArgs = None, effects = eff\<rparr>"

section \<open>Properties\<close>

text \<open>The definitions unfolded in the concrete runs.\<close>

lemmas sample_defs =
  empty_selector_def pullServers_def listing_def
  createWeighted_def createWeighted_step_def removeInactiveServers_def removeInactive_step_def
  remove_at_def lookup_client_def TrimPrefix_def sample_env_def plain_ParseQuery_def plain_Get_def
  plain_Atoi_def digit_of_def Let_def signed_modulo_int_def serving_def table_dial_def
  NewEtcdClientSelector_def start_def

subsection \<open>A pull that fails or finds nothing\<close>

lemma pullServers_failed:
  "pull_failed get \<Longrightarrow> pullServers e s get = Inr (s\<lparr>effects := effects s @ [RegistryGet]\<rparr>)"
  by (cases get) (auto simp: pull_failed_def pullServers_def)

lemma pullServers_no_children:
  "pulled_children get = Some [] \<Longrightarrow>
     pullServers e s get = Inr (s\<lparr>effects := effects s @ [RegistryGet], clientAndServer := Map.empty\<rparr>)"
  by (cases get) (auto simp: pulled_children_def pullServers_def split: if_splits option.splits)

text \<open>What \<open>getCachedClient\<close> returns depends on the cache alone.\<close>

lemma outcome_getCachedClient:
  "outcome (getCachedClient e s k) =
     (case lookup_client (clientAndServer s) k of
        Some c \<Rightarrow> Inr (Some c, None)
      | None \<Rightarrow>
          (if length (Split k (CHR ''@'')) < 2 then Inl IndexOutOfRange
           else Inr (NewDirectRPCClient e (Split k (CHR ''@'') ! 0) (Split k (CHR ''@'') ! 1))))"
  by (simp add: getCachedClient_def Let_def split: option.splits prod.splits)

text \<open>What \<open>Select\<close> returns does not depend on what was done to the outside world before.\<close>

lemma Select_effects:
  "outcome (Select e (s\<lparr>effects := x\<rparr>) r opts) = outcome (Select e s r opts)"
proof (cases "len s = 0")
  case True
  then show ?thesis by (simp add: Select_def)
next
  case False
  show ?thesis
  proof (cases "SelectMode s")
    case RandomSelect
    with False show ?thesis
      by (cases "Intn r (len s)"; cases "index_at (Servers s) (projr (Intn r (len s)))")
         (simp_all add: Select_def Let_def outcome_getCachedClient)
  next
    case RoundRobin
    with False show ?thesis
      by (cases "index_at (Servers s) ((currentServer s + 1) smod len s)")
         (simp_all add: Select_def Let_def outcome_getCachedClient)
  next
    case WeightedRoundRobin
    with False show ?thesis
      by (cases "nextWeighted e (WeightedServers s)"; cases "snd (nextWeighted e (WeightedServers s))")
         (simp_all add: Select_def Let_def outcome_getCachedClient)
  next
    case WeightedICMP
    with False show ?thesis
      by (cases "nextWeighted e (WeightedServers s)"; cases "snd (nextWeighted e (WeightedServers s))")
         (simp_all add: Select_def Let_def outcome_getCachedClient)
  next
    case ConsistentHash
    with False show ?thesis
      by (cases "HashServiceAndArgs s";
          cases "index_at (Servers s) (JumpConsistentHash e (len s) opts)";
          cases "index_at (Servers s) (the (HashServiceAndArgs s) (len s) opts)")
         (simp_all add: Select_def Let_def outcome_getCachedClient)
  next
    case Closest
    with False show ?thesis
      by (cases "Intn r (int (length (getClosestServer e (Latitude s) (Longitude s) (metadata s))))";
          cases "index_at (getClosestServer e (Latitude s) (Longitude s) (metadata s))
                   (projr (Intn r (int (length (getClosestServer e (Latitude s) (Longitude s) (metadata s))))))")
         (simp_all add: Select_def Let_def outcome_getCachedClient)
  next
    case (OtherMode name)
    with False show ?thesis by (simp add: Select_def)
  qed
qed

text \<open>
  C6.  When the get of a pull returns an error, or a response without a node,
  \<open>pullServers\<close> returns normally and changes no field of the selector (only the get
  itself is added to the record of effects): the addresses, the weighted records, the
  length, the cursor and the connection cache are the ones before.  It returns nothing to
  anyone, and any \<open>Select\<close> made after it returns what it would have returned before it.
\<close>

theorem pullServers_failure_keeps_state:
  assumes "pull_failed get"
  shows "pullServers e s get = Inr (s\<lparr>effects := effects s @ [RegistryGet]\<rparr>)
    \<and> outcome (Select e (s\<lparr>effects := effects s @ [RegistryGet]\<rparr>) r opts) = outcome (Select e s r opts)"
  using assms by (simp add: pullServers_failed Select_effects)

theorem pullServers_failure_keeps_state_witness:
  "pull_failed (\<lparr>Action = [], Node = None\<rparr>, Some ''etcd cluster is unavailable'')
   \<and> pullServers (sample_env []) (serving RoundRobin [''tcp@127.0.0.1:8972''] Map.empty [RegistryGet])
        (\<lparr>Action = [], Node = None\<rparr>, Some ''etcd cluster is unavailable'')
      = Inr (serving RoundRobin [''tcp@127.0.0.1:8972''] Map.empty [RegistryGet, RegistryGet])
   \<and> outcome (Select (sample_env [])
        (serving RoundRobin [''tcp@127.0.0.1:8972''] Map.empty [RegistryGet, RegistryGet]) 0 [])
      = outcome (Select (sample_env []) (serving RoundRobin [''tcp@127.0.0.1:8972''] Map.empty [RegistryGet]) 0 [])"
proof -
  let ?s = "serving RoundRobin [''tcp@127.0.0.1:8972''] Map.empty [RegistryGet]"
  have f: "pull_failed (\<lparr>Action = [], Node = None\<rparr>, Some ''etcd cluster is unavailable'')"
    by (simp add: pull_failed_def)
  have e: "?s\<lparr>effects := effects ?s @ [RegistryGet]\<rparr>
             = serving RoundRobin [''tcp@127.0.0.1:8972''] Map.empty [RegistryGet, RegistryGet]"
    by (simp add: serving_def)
  show ?thesis
    using f pullServers_failure_keeps_state [OF f, of "sample_env []" ?s 0 "[]"]
    unfolding e by simp
qed

subsection \<open>Building and pruning the weighted records\<close>

lemma server_key_cong: "BasePath s2 = BasePath s \<Longrightarrow> server_key s2 n = server_key s n"
  by (simp add: server_key_def)

lemma remove_at_map: "map f (remove_at xs k) = remove_at (map f xs) k"
  by (simp add: remove_at_def take_map drop_map)

lemma pulls_append_Close [simp]: "count_list (es @ [Close c]) RegistryGet = count_list es RegistryGet"
  by (induction es) auto

lemma removeInactive_step_frame:
  assumes "removeInactive_step s k = Inr s1"
  shows "metadata s1 = metadata s \<and> BasePath s1 = BasePath s \<and> Group s1 = Group s
    \<and> SelectMode s1 = SelectMode s \<and> len s1 = len s \<and> currentServer s1 = currentServer s
    \<and> Servers s1 = remove_at (Servers s) k \<and> WeightedServers s1 = remove_at (WeightedServers s) k
    \<and> pulls s1 = pulls s"
  using assms
  by (auto simp: removeInactive_step_def Let_def pulls_def split: if_splits option.splits)

lemma removeInactive_step_aligned:
  assumes "removeInactive_step s k = Inr s1" and "aligned s"
  shows "aligned s1"
  using removeInactive_step_frame [OF assms(1)] assms(2)
  by (simp add: aligned_def remove_at_map)

lemma removeInactive_loop_aligned:
  "removeInactive_loop s ks = Inr s1 \<Longrightarrow> aligned s \<Longrightarrow> aligned s1"
proof (induction ks arbitrary: s)
  case Nil
  then show ?case by simp
next
  case (Cons k ks)
  then show ?case
    by (auto split: sum.splits dest: removeInactive_step_aligned)
qed

lemma removeInactive_loop_frame:
  "removeInactive_loop s ks = Inr s1 \<Longrightarrow>
     metadata s1 = metadata s \<and> SelectMode s1 = SelectMode s \<and> pulls s1 = pulls s"
proof (induction ks arbitrary: s)
  case Nil
  then show ?case by simp
next
  case (Cons k ks)
  from Cons.prems obtain s2 where
    step: "removeInactive_step s k = Inr s2" and rest: "removeInactive_loop s2 ks = Inr s1"
    by (auto split: sum.splits)
  from Cons.IH [OF rest] removeInactive_step_frame [OF step] show ?case
    by simp
qed

lemma createWeighted_step_frame:
  assumes "createWeighted_step e s inact i n = Inr (s1, inact1)"
  shows "Servers s1 = Servers s \<and> BasePath s1 = BasePath s \<and> i < length (WeightedServers s)
    \<and> map (map_option Server) (WeightedServers s1) =
        (map (map_option Server) (WeightedServers s))[i := Some (server_key s n)]
    \<and> metadata s1 = (metadata s)(server_key s n \<mapsto> Value n)
    \<and> SelectMode s1 = SelectMode s \<and> effects s1 = effects s"
  using assms
  by (auto simp: createWeighted_step_def server_key_def Let_def map_update split: if_splits option.splits)

lemma createWeighted_loop_servers:
  "createWeighted_loop e s inact i ns = Inr (s1, inact1) \<Longrightarrow>
     Servers s1 = Servers s \<and> BasePath s1 = BasePath s
     \<and> map (map_option Server) (WeightedServers s1) =
         take i (map (map_option Server) (WeightedServers s)) @ map (\<lambda>n. Some (server_key s n)) ns
         @ drop (i + length ns) (map (map_option Server) (WeightedServers s))"
proof (induction ns arbitrary: s inact i)
  case Nil
  then show ?case by simp
next
  case (Cons n ns)
  from Cons.prems obtain s2 inact2 where
    step: "createWeighted_step e s inact i n = Inr (s2, inact2)" and
    rest: "createWeighted_loop e s2 inact2 (Suc i) ns = Inr (s1, inact1)"
    by (auto split: sum.splits)
  let ?m = "map (map_option Server) (WeightedServers s)"
  from createWeighted_step_frame [OF step] have
    f: "Servers s2 = Servers s" "BasePath s2 = BasePath s" "i < length (WeightedServers s)"
       "map (map_option Server) (WeightedServers s2) = ?m[i := Some (server_key s n)]"
    by simp_all
  have k: "server_key s2 = server_key s"
    using f(2) by (simp add: server_key_def fun_eq_iff)
  have m2: "map (map_option Server) (WeightedServers s2) = take i ?m @ Some (server_key s n) # drop (Suc i) ?m"
    using f(3,4) by (simp add: upd_conv_take_nth_drop)
  have li: "i < length ?m" using f(3) by simp
  from Cons.IH [OF rest] show ?case
    using f(1,2) li by (simp add: m2 k min_def add.commute)
qed

lemma createWeighted_loop_frame:
  "createWeighted_loop e s inact i ns = Inr (s1, inact1) \<Longrightarrow>
     SelectMode s1 = SelectMode s \<and> effects s1 = effects s
     \<and> dom (metadata s) \<subseteq> dom (metadata s1)
     \<and> server_key s ` set ns \<subseteq> dom (metadata s1)"
proof (induction ns arbitrary: s inact i)
  case Nil
  then show ?case by simp
next
  case (Cons n ns)
  from Cons.prems obtain s2 inact2 where
    step: "createWeighted_step e s inact i n = Inr (s2, inact2)" and
    rest: "createWeighted_loop e s2 inact2 (Suc i) ns = Inr (s1, inact1)"
    by (auto split: sum.splits)
  note f = createWeighted_step_frame [OF step]
  have k: "server_key s2 = server_key s"
    using f by (simp add: server_key_def fun_eq_iff)
  have d: "dom (metadata s2) = insert (server_key s n) (dom (metadata s))"
    using f by simp
  from Cons.IH [OF rest] have ih:
    "SelectMode s1 = SelectMode s2" "effects s1 = effects s2"
    "dom (metadata s2) \<subseteq> dom (metadata s1)"
    "server_key s ` set ns \<subseteq> dom (metadata s1)"
    by (simp_all add: k)
  have "dom (metadata s) \<subseteq> dom (metadata s1)"
    using d ih(3) by blast
  moreover have "server_key s n \<in> dom (metadata s1)"
    using d ih(3) by blast
  ultimately show ?case
    using f ih by simp
qed

lemma icmp_loop_servers:
  "icmp_loop e ws = Inr ws1 \<Longrightarrow> map (map_option Server) ws1 = map (map_option Server) ws"
proof (induction ws arbitrary: ws1)
  case Nil
  then show ?case by simp
next
  case (Cons w ws)
  then show ?case
    by (auto simp: Let_def split: option.splits if_splits sum.splits)
qed

lemma createWeighted_result:
  assumes "createWeighted e s nodes = Inr s1"
  shows "dom (metadata s) \<subseteq> dom (metadata s1) \<and> server_key s ` set nodes \<subseteq> dom (metadata s1)
    \<and> pulls s1 = pulls s \<and> SelectMode s1 = SelectMode s
    \<and> (Servers s = map (server_key s) nodes \<longrightarrow> aligned s1)"
proof -
  let ?s0 = "s\<lparr>WeightedServers := replicate (length (Servers s)) None\<rparr>"
  from assms obtain s2 inact where
    loop: "createWeighted_loop e ?s0 [] 0 nodes = Inr (s2, inact)" and
    rm: "removeInactive_loop s2 (rev inact) = Inr s1"
    by (auto simp: createWeighted_def removeInactiveServers_def split: sum.splits)
  have k: "server_key ?s0 = server_key s"
    by (simp add: server_key_def fun_eq_iff)
  note fr = createWeighted_loop_frame [OF loop, unfolded k]
  note rf = removeInactive_loop_frame [OF rm]
  have al: "aligned s1" if "Servers s = map (server_key s) nodes"
  proof -
    from createWeighted_loop_servers [OF loop] that
    have "aligned s2"
      unfolding k by (simp add: aligned_def)
    with rm show ?thesis
      by (rule removeInactive_loop_aligned)
  qed
  have p: "pulls s2 = pulls s"
    using fr by (simp add: pulls_def)
  show ?thesis
    using fr rf al p by simp
qed


subsection \<open>A pull that lists servers\<close>

lemma pulled_children_cases:
  "pulled_children get = Some nodes \<Longrightarrow> \<exists>resp n. get = (resp, None) \<and> Node resp = Some n \<and> Nodes n = nodes"
  by (cases get) (auto simp: pulled_children_def split: if_splits option.splits)

lemma pullServers_children_result:
  assumes "pulled_children get = Some nodes" and "nodes \<noteq> []" and "pullServers e s get = Inr s'"
  shows "aligned s' \<and> dom (metadata s) \<subseteq> dom (metadata s')
    \<and> server_key s ` set nodes \<subseteq> dom (metadata s') \<and> pulls s' = Suc (pulls s)"
proof -
  let ?s = "s\<lparr>effects := effects s @ [RegistryGet]\<rparr>"
  let ?sv = "?s\<lparr>Servers := map (\<lambda>n. TrimPrefix (Key n) (BasePath ?s @ ''/'')) nodes\<rparr>"
  from pulled_children_cases [OF assms(1)] obtain resp n where
    g: "get = (resp, None)" "Node resp = Some n" "Nodes n = nodes"
    by blast
  from assms(2,3) g obtain s1 s2 where
    cw: "createWeighted e ?sv nodes = Inr s1" and
    ic: "(if SelectMode s1 = WeightedICMP
          then (case icmp_loop e (WeightedServers s1) of
                  Inl p \<Rightarrow> Inl p
                | Inr ws \<Rightarrow> Inr (s1\<lparr>WeightedServers := ws\<rparr>))
          else Inr s1) = Inr s2" and
    fin: "s' = (let s3 = s2\<lparr>len := int (length (Servers s2))\<rparr> in
                if len s3 > 0 then s3\<lparr>currentServer := currentServer s3 smod len s3\<rparr> else s3)"
    by (auto simp: pullServers_def Let_def split: sum.splits)
  have sv: "Servers ?sv = map (server_key ?sv) nodes"
    by (simp add: server_key_def)
  have k: "server_key ?sv = server_key s"
    by (simp add: server_key_def fun_eq_iff)
  from createWeighted_result [OF cw] sv have
    r1: "dom (metadata s) \<subseteq> dom (metadata s1)" "server_key s ` set nodes \<subseteq> dom (metadata s1)"
        "pulls s1 = Suc (pulls s)" "aligned s1"
    unfolding k by (simp_all add: pulls_def)
  from ic have r2: "metadata s2 = metadata s1 \<and> pulls s2 = pulls s1 \<and> aligned s2"
    using r1(4) icmp_loop_servers [of e "WeightedServers s1"]
    by (auto simp: aligned_def pulls_def split: if_splits sum.splits)
  from fin have r3: "metadata s' = metadata s2 \<and> pulls s' = pulls s2 \<and> (aligned s2 \<longrightarrow> aligned s')"
    by (simp add: Let_def aligned_def pulls_def)
  show ?thesis
    using r1 r2 r3 by simp
qed

lemma pullServers_cases:
  "pull_failed get \<or> pulled_children get = Some [] \<or> has_children get"
  by (cases get) (auto simp: pull_failed_def pulled_children_def has_children_def split: option.splits list.splits)

text \<open>
  C7.  A pull that returns leaves the addresses and the weighted records aligned: the same
  length, no nil record, the i-th record that of the i-th address.  When the listing has
  children both sequences are rebuilt from it and stay aligned through every removal of a
  record whose state is not active or whose group differs; when the pull fails or lists
  nothing, neither sequence is touched, so they are aligned as they were before (they are
  in the selector as constructed).
\<close>

theorem pullServers_keeps_aligned:
  assumes "pullServers e s get = Inr s'" and "aligned s \<or> has_children get"
  shows "aligned s' \<and> length (WeightedServers s') = length (Servers s')"
proof -
  have "aligned s'"
  proof (cases "has_children get")
    case True
    then obtain nodes where "pulled_children get = Some nodes" "nodes \<noteq> []"
      by (auto simp: has_children_def split: option.splits list.splits)
    from pullServers_children_result [OF this assms(1)] show ?thesis by simp
  next
    case False
    with assms(2) have a: "aligned s" by simp
    from False pullServers_cases [of get] consider "pull_failed get" | "pulled_children get = Some []"
      by blast
    then show ?thesis
    proof cases
      case 1
      from pullServers_failed [OF 1, of e s] assms(1) a show ?thesis
        by (auto simp: aligned_def)
    next
      case 2
      from pullServers_no_children [OF 2, of e s] assms(1) a show ?thesis
        by (auto simp: aligned_def)
    qed
  qed
  moreover from this have "length (WeightedServers s') = length (Servers s')"
    unfolding aligned_def by (metis length_map)
  ultimately show ?thesis by simp
qed

lemma sample_pull_servers:
  "map_sum id Servers
     (pullServers (sample_env []) (empty_selector ''/rpcx/Arith'' RoundRobin)
        (listing [(''tcp@127.0.0.1:8972'', ''weight=2''), (''tcp@127.0.0.1:8973'', ''state=inactive''),
                  (''tcp@127.0.0.1:8974'', ''group=test'')]))
   = Inr [''tcp@127.0.0.1:8972'']"
  by code_simp

theorem pullServers_keeps_aligned_witness:
  "has_children (listing [(''tcp@127.0.0.1:8972'', ''weight=2''), (''tcp@127.0.0.1:8973'', ''state=inactive''),
                  (''tcp@127.0.0.1:8974'', ''group=test'')])
   \<and> map_sum id Servers
     (pullServers (sample_env []) (empty_selector ''/rpcx/Arith'' RoundRobin)
        (listing [(''tcp@127.0.0.1:8972'', ''weight=2''), (''tcp@127.0.0.1:8973'', ''state=inactive''),
                  (''tcp@127.0.0.1:8974'', ''group=test'')]))
     = Inr [''tcp@127.0.0.1:8972'']
   \<and> map_sum id aligned
     (pullServers (sample_env []) (empty_selector ''/rpcx/Arith'' RoundRobin)
        (listing [(''tcp@127.0.0.1:8972'', ''weight=2''), (''tcp@127.0.0.1:8973'', ''state=inactive''),
                  (''tcp@127.0.0.1:8974'', ''group=test'')]))
     = Inr True"
proof -
  let ?L = "listing [(''tcp@127.0.0.1:8972'', ''weight=2''), (''tcp@127.0.0.1:8973'', ''state=inactive''),
                  (''tcp@127.0.0.1:8974'', ''group=test'')]"
  let ?P = "pullServers (sample_env []) (empty_selector ''/rpcx/Arith'' RoundRobin) ?L"
  have h: "has_children ?L"
    by (simp add: has_children_def pulled_children_def listing_def)
  from sample_pull_servers obtain s' where p: "?P = Inr s'"
    by (cases ?P) auto
  from pullServers_keeps_aligned [OF p] h have "aligned s'"
    by simp
  with h p sample_pull_servers show ?thesis
    by simp
qed


subsection \<open>The metadata map\<close>

lemma getCachedClient_frame:
  "getCachedClient e s k = Inr (s', x) \<Longrightarrow>
     metadata s' = metadata s \<and> pulls s' = pulls s"
  by (auto simp: getCachedClient_def Let_def pulls_def split: option.splits if_splits prod.splits)

lemma HandleFailedClient_frame:
  "metadata (HandleFailedClient s order cl) = metadata s"
  by (simp add: HandleFailedClient_def Let_def split: list.splits)

lemma AllClients_frame:
  "AllClients e s = Inr (s', cs) \<Longrightarrow> metadata s' = metadata s"
  by (auto simp: AllClients_def split: sum.splits prod.splits)

lemma Select_frame:
  assumes "Select e s r opts = Inr (s', x)"
  shows "metadata s' = metadata s"
proof (cases "len s = 0")
  case True
  with assms show ?thesis by (auto simp: Select_def)
next
  case False
  show ?thesis
  proof (cases "SelectMode s")
    case RandomSelect
    with False assms show ?thesis
      by (auto simp: Select_def Let_def split: sum.splits dest!: getCachedClient_frame)
  next
    case RoundRobin
    with False assms show ?thesis
      by (auto simp: Select_def Let_def split: sum.splits dest!: getCachedClient_frame)
  next
    case WeightedRoundRobin
    with False assms show ?thesis
      by (auto simp: Select_def Let_def split: prod.splits option.splits dest!: getCachedClient_frame)
  next
    case WeightedICMP
    with False assms show ?thesis
      by (auto simp: Select_def Let_def split: prod.splits option.splits dest!: getCachedClient_frame)
  next
    case ConsistentHash
    with False assms show ?thesis
      by (auto simp: Select_def Let_def split: sum.splits dest!: getCachedClient_frame)
  next
    case Closest
    with False assms show ?thesis
      by (auto simp: Select_def Let_def split: sum.splits dest!: getCachedClient_frame)
  next
    case (OtherMode name)
    with False assms show ?thesis by (auto simp: Select_def)
  qed
qed

lemma pullServers_result:
  assumes "pullServers e s get = Inr s'"
  shows "dom (metadata s) \<subseteq> dom (metadata s') \<and> pulls s' = Suc (pulls s)
    \<and> (\<forall>nodes. pulled_children get = Some nodes \<longrightarrow> server_key s ` set nodes \<subseteq> dom (metadata s'))"
proof -
  from pullServers_cases [of get]
  consider "pull_failed get" | "pulled_children get = Some []" | "has_children get"
    by blast
  then show ?thesis
  proof cases
    case 1
    then have "pulled_children get = None"
      by (cases get) (auto simp: pull_failed_def pulled_children_def)
    with pullServers_failed [OF 1, of e s] assms show ?thesis
      by (auto simp: pulls_def)
  next
    case 2
    with pullServers_no_children [OF 2, of e s] assms show ?thesis
      by (auto simp: pulls_def)
  next
    case 3
    then obtain nodes where n: "pulled_children get = Some nodes" "nodes \<noteq> []"
      by (auto simp: has_children_def split: option.splits list.splits)
    from pullServers_children_result [OF n assms] n(1) show ?thesis
      by simp
  qed
qed

lemma Select_Closest_single:
  assumes "SelectMode s = Closest" and "len s \<noteq> 0"
    and "getClosestServer e (Latitude s) (Longitude s) (metadata s) = [k]"
  shows "Select e s r opts = getCachedClient e s k"
  using assms by (simp add: Select_def Intn_def index_at_def)

lemma enter_nodes_append:
  "enter_nodes base md (ns @ ms) = enter_nodes base (enter_nodes base md ns) ms"
  by (induction ns arbitrary: md) simp_all

lemma enter_nodes_other:
  "k \<notin> (\<lambda>n. TrimPrefix (Key n) (base @ ''/'')) ` set ns \<Longrightarrow> enter_nodes base md ns k = md k"
  by (induction ns arbitrary: md) simp_all

lemma enter_nodes_dom:
  "dom (enter_nodes base md ns) = dom md \<union> (\<lambda>n. TrimPrefix (Key n) (base @ ''/'')) ` set ns"
  by (induction ns arbitrary: md) auto

lemma removeInactive_loop_BasePath:
  "removeInactive_loop s ks = Inr s1 \<Longrightarrow> BasePath s1 = BasePath s"
proof (induction ks arbitrary: s)
  case Nil
  then show ?case by simp
next
  case (Cons k ks)
  from Cons.prems obtain s2 where
    step: "removeInactive_step s k = Inr s2" and rest: "removeInactive_loop s2 ks = Inr s1"
    by (auto split: sum.splits)
  from Cons.IH [OF rest] removeInactive_step_frame [OF step] show ?case
    by simp
qed

lemma createWeighted_loop_metadata:
  "createWeighted_loop e s inact i ns = Inr (s1, inact1) \<Longrightarrow>
     metadata s1 = enter_nodes (BasePath s) (metadata s) ns \<and> BasePath s1 = BasePath s"
proof (induction ns arbitrary: s inact i)
  case Nil
  then show ?case by simp
next
  case (Cons n ns)
  from Cons.prems obtain s2 inact2 where
    step: "createWeighted_step e s inact i n = Inr (s2, inact2)" and
    rest: "createWeighted_loop e s2 inact2 (Suc i) ns = Inr (s1, inact1)"
    by (auto split: sum.splits)
  from createWeighted_step_frame [OF step] have
    f: "BasePath s2 = BasePath s" "metadata s2 = (metadata s)(server_key s n \<mapsto> Value n)"
    by simp_all
  from Cons.IH [OF rest] have
    ih: "metadata s1 = enter_nodes (BasePath s2) (metadata s2) ns" "BasePath s1 = BasePath s2"
    by simp_all
  show ?case
    unfolding ih f by (simp add: server_key_def)
qed

lemma createWeighted_metadata:
  assumes "createWeighted e s nodes = Inr s1"
  shows "metadata s1 = enter_nodes (BasePath s) (metadata s) nodes \<and> BasePath s1 = BasePath s"
proof -
  let ?s0 = "s\<lparr>WeightedServers := replicate (length (Servers s)) None\<rparr>"
  from assms obtain s2 inact where
    loop: "createWeighted_loop e ?s0 [] 0 nodes = Inr (s2, inact)" and
    rm: "removeInactive_loop s2 (rev inact) = Inr s1"
    by (auto simp: createWeighted_def removeInactiveServers_def split: sum.splits)
  from createWeighted_loop_metadata [OF loop] removeInactive_loop_frame [OF rm]
    removeInactive_loop_BasePath [OF rm]
  show ?thesis by simp
qed

lemma pullServers_metadata:
  assumes "pullServers e s get = Inr s'"
  shows "metadata s' = enter_nodes (BasePath s) (metadata s) (pulled_nodes get) \<and> BasePath s' = BasePath s"
proof -
  from pullServers_cases [of get]
  consider "pull_failed get" | "pulled_children get = Some []" | "has_children get"
    by blast
  then show ?thesis
  proof cases
    case 1
    then have "pulled_children get = None"
      by (cases get) (auto simp: pull_failed_def pulled_children_def)
    with pullServers_failed [OF 1, of e s] assms show ?thesis
      by (auto simp: pulled_nodes_def)
  next
    case 2
    with pullServers_no_children [OF 2, of e s] assms show ?thesis
      by (auto simp: pulled_nodes_def)
  next
    case 3
    then obtain nodes where n: "pulled_children get = Some nodes" "nodes \<noteq> []"
      by (auto simp: has_children_def split: option.splits list.splits)
    let ?s = "s\<lparr>effects := effects s @ [RegistryGet]\<rparr>"
    let ?sv = "?s\<lparr>Servers := map (\<lambda>n. TrimPrefix (Key n) (BasePath ?s @ ''/'')) nodes\<rparr>"
    from pulled_children_cases [OF n(1)] obtain resp nd where
      g: "get = (resp, None)" "Node resp = Some nd" "Nodes nd = nodes"
      by blast
    from n(2) assms g obtain s1 s2 where
      cw: "createWeighted e ?sv nodes = Inr s1" and
      ic: "(if SelectMode s1 = WeightedICMP
            then (case icmp_loop e (WeightedServers s1) of
                    Inl p \<Rightarrow> Inl p
                  | Inr ws \<Rightarrow> Inr (s1\<lparr>WeightedServers := ws\<rparr>))
            else Inr s1) = Inr s2" and
      fin: "s' = (let s3 = s2\<lparr>len := int (length (Servers s2))\<rparr> in
                  if len s3 > 0 then s3\<lparr>currentServer := currentServer s3 smod len s3\<rparr> else s3)"
      by (auto simp: pullServers_def Let_def split: sum.splits)
    from ic have r2: "metadata s2 = metadata s1 \<and> BasePath s2 = BasePath s1"
      by (auto split: if_splits sum.splits)
    from fin have r3: "metadata s' = metadata s2 \<and> BasePath s' = BasePath s2"
      by (simp add: Let_def)
    from createWeighted_metadata [OF cw] r2 r3 n(1) show ?thesis
      by (simp add: pulled_nodes_def)
  qed
qed

lemma watch_step_metadata:
  assumes "watch_step e s res get = Inr s'"
  shows "metadata s' = enter_nodes (BasePath s) (metadata s)
           (if Action res \<in> {''expire'', ''set'', ''update'', ''delete''} then pulled_nodes get else [])
         \<and> BasePath s' = BasePath s"
proof -
  consider "Action res = ''expire''"
    | "Action res \<noteq> ''expire''" "Action res = ''set'' \<or> Action res = ''update'' \<or> Action res = ''delete''"
    | "Action res \<noteq> ''expire''" "\<not> (Action res = ''set'' \<or> Action res = ''update'' \<or> Action res = ''delete'')"
    by blast
  then show ?thesis
  proof cases
    case 1
    with assms obtain s1 where p: "pullServers e s get = Inr s1" and
      m: "metadata s' = metadata s1" "BasePath s' = BasePath s1"
      by (auto simp: watch_step_def Let_def split: sum.splits option.splits if_splits)
    from pullServers_metadata [OF p] m 1 show ?thesis by simp
  next
    case 2
    with assms have "pullServers e s get = Inr s'"
      by (auto simp: watch_step_def)
    from pullServers_metadata [OF this] 2 show ?thesis by auto
  next
    case 3
    with assms show ?thesis
      by (auto simp: watch_step_def)
  qed
qed

lemma watch_metadata:
  "watch e s evs = Inr s' \<Longrightarrow>
     metadata s' = enter_nodes (BasePath s) (metadata s) (watched_nodes evs) \<and> BasePath s' = BasePath s"
proof (induction evs arbitrary: s)
  case Nil
  then show ?case by simp
next
  case (Cons ev evs)
  obtain res err get where ev: "ev = ((res, err), get)"
    by (cases ev) auto
  show ?case
  proof (cases "err = None")
    case False
    with Cons.prems ev show ?thesis by auto
  next
    case True
    with Cons.prems ev obtain s1 where
      st: "watch_step e s res get = Inr s1" and rest: "watch e s1 evs = Inr s'"
      by (auto split: sum.splits)
    from watch_step_metadata [OF st] Cons.IH [OF rest] ev True show ?thesis
      by (simp add: enter_nodes_append)
  qed
qed

text \<open>
  C10.  No call on the selector removes an entry from the metadata map or changes one it
  was not given.  Whatever the call, if it returns, the map is the map before with the
  nodes the call listed entered in order, each under its key with its value: so every
  key the map had is still there, a key no listed node has keeps its value, and every
  listed node is in the map, also the nodes that \<open>createWeighted\<close> then drops from the
  server list as inactive.  A call that lists no node, \<open>removeInactiveServers\<close> among
  them, leaves the map as it is.  \<open>Select\<close> in Closest mode ranks over that whole map,
  so when the ranking answers with one key, that key is the server dialled, in the
  server list or not.
\<close>

theorem metadata_never_shrinks:
  assumes "invoke e s c = Inr s'"
  shows "metadata s' = enter_nodes (BasePath s) (metadata s) (listed_nodes c)
    \<and> dom (metadata s) \<subseteq> dom (metadata s')
    \<and> server_key s ` set (listed_nodes c) \<subseteq> dom (metadata s')
    \<and> (\<forall>k. k \<notin> server_key s ` set (listed_nodes c) \<longrightarrow> metadata s' k = metadata s k)
    \<and> (touches_metadata c \<or> metadata s' = metadata s)
    \<and> (SelectMode s' = Closest \<and> len s' \<noteq> 0
         \<and> getClosestServer e (Latitude s') (Longitude s') (metadata s') = [k]
        \<longrightarrow> Select e s' r opts = getCachedClient e s' k)"
proof -
  have last: "SelectMode s' = Closest \<and> len s' \<noteq> 0
         \<and> getClosestServer e (Latitude s') (Longitude s') (metadata s') = [k]
        \<longrightarrow> Select e s' r opts = getCachedClient e s' k"
    using Select_Closest_single [of s' e k r opts] by blast
  have same: "metadata s' = enter_nodes (BasePath s) (metadata s) (listed_nodes c)
      \<and> (touches_metadata c \<or> metadata s' = metadata s)"
  proof (cases c)
    case (CallPull get)
    with assms have "pullServers e s get = Inr s'" by simp
    from pullServers_metadata [OF this] CallPull show ?thesis
      by (simp add: listed_nodes_def touches_metadata_def)
  next
    case (CallWatch evs)
    with assms have "watch e s evs = Inr s'" by simp
    from watch_metadata [OF this] CallWatch show ?thesis
      by (simp add: listed_nodes_def touches_metadata_def)
  next
    case (CallCreateWeighted nodes)
    with assms have "createWeighted e s nodes = Inr s'" by simp
    from createWeighted_metadata [OF this] CallCreateWeighted show ?thesis
      by (simp add: listed_nodes_def touches_metadata_def)
  next
    case (CallRemoveInactive ks)
    with assms have "removeInactive_loop s (rev ks) = Inr s'"
      by (simp add: removeInactiveServers_def)
    from removeInactive_loop_frame [OF this] CallRemoveInactive show ?thesis
      by (simp add: listed_nodes_def)
  next
    case (CallGetCached server)
    with assms obtain x where "getCachedClient e s server = Inr (s', x)"
      by (cases "getCachedClient e s server") auto
    from getCachedClient_frame [OF this] CallGetCached show ?thesis
      by (simp add: listed_nodes_def)
  next
    case (CallHandleFailed order cl)
    with assms HandleFailedClient_frame [of s order cl] show ?thesis
      by (auto simp: listed_nodes_def)
  next
    case CallAllClients
    with assms obtain cs where "AllClients e s = Inr (s', cs)"
      by (cases "AllClients e s") auto
    from AllClients_frame [OF this] CallAllClients show ?thesis
      by (simp add: listed_nodes_def)
  next
    case (CallSelect r opts)
    with assms obtain x where "Select e s r opts = Inr (s', x)"
      by (cases "Select e s r opts") auto
    from Select_frame [OF this] CallSelect show ?thesis
      by (simp add: listed_nodes_def)
  qed
  have img: "server_key s ` set ns = (\<lambda>n. TrimPrefix (Key n) (BasePath s @ ''/'')) ` set ns" for ns
    by (simp add: server_key_def)
  from same have d: "dom (metadata s') = dom (metadata s) \<union> server_key s ` set (listed_nodes c)"
    by (simp add: enter_nodes_dom img)
  from same have o: "\<forall>k. k \<notin> server_key s ` set (listed_nodes c) \<longrightarrow> metadata s' k = metadata s k"
    by (simp add: enter_nodes_other img)
  from same d o last show ?thesis
    by blast
qed

lemma sample_coordinates:
  "has_coordinates ''state=inactive&latitude=39.9&longitude=116.4''"
  by code_simp

lemma sample_pull_inactive:
  "pullServers (near_env [(''127.0.0.1:8973'', 2)] ''tcp@127.0.0.1:8973'')
     (empty_selector ''/rpcx/Arith'' Closest)
     (listing [(''tcp@127.0.0.1:8972'', ''weight=1''),
               (''tcp@127.0.0.1:8973'', ''state=inactive&latitude=39.9&longitude=116.4'')])
   = Inr ((serving Closest [''tcp@127.0.0.1:8972''] Map.empty [RegistryGet])
            \<lparr>metadata := [''tcp@127.0.0.1:8972'' \<mapsto> ''weight=1'',
                          ''tcp@127.0.0.1:8973'' \<mapsto> ''state=inactive&latitude=39.9&longitude=116.4'']\<rparr>)"
  by (simp add: near_env_def sample_defs)

lemma sample_pull_again:
  "pullServers (near_env [(''127.0.0.1:8973'', 2)] ''tcp@127.0.0.1:8973'')
     ((serving Closest [''tcp@127.0.0.1:8972''] Map.empty [RegistryGet])
            \<lparr>metadata := [''tcp@127.0.0.1:8972'' \<mapsto> ''weight=1'',
                          ''tcp@127.0.0.1:8973'' \<mapsto> ''state=inactive&latitude=39.9&longitude=116.4'']\<rparr>)
     (listing [(''tcp@127.0.0.1:8972'', ''weight=1'')])
   = Inr ((serving Closest [''tcp@127.0.0.1:8972''] Map.empty [RegistryGet, RegistryGet])
            \<lparr>metadata := [''tcp@127.0.0.1:8973'' \<mapsto> ''state=inactive&latitude=39.9&longitude=116.4'',
                          ''tcp@127.0.0.1:8972'' \<mapsto> ''weight=1'']\<rparr>)"
  by (simp add: near_env_def sample_defs)

theorem metadata_never_shrinks_witness:
  "invoke (near_env [(''127.0.0.1:8973'', 2)] ''tcp@127.0.0.1:8973'')
     (empty_selector ''/rpcx/Arith'' Closest)
     (CallPull (listing [(''tcp@127.0.0.1:8972'', ''weight=1''),
               (''tcp@127.0.0.1:8973'', ''state=inactive&latitude=39.9&longitude=116.4'')]))
   = Inr ((serving Closest [''tcp@127.0.0.1:8972''] Map.empty [RegistryGet])
            \<lparr>metadata := [''tcp@127.0.0.1:8972'' \<mapsto> ''weight=1'',
                          ''tcp@127.0.0.1:8973'' \<mapsto> ''state=inactive&latitude=39.9&longitude=116.4'']\<rparr>)
   \<and> ''tcp@127.0.0.1:8973'' \<notin> set (Servers ((serving Closest [''tcp@127.0.0.1:8972''] Map.empty [RegistryGet])
            \<lparr>metadata := [''tcp@127.0.0.1:8972'' \<mapsto> ''weight=1'',
                          ''tcp@127.0.0.1:8973'' \<mapsto> ''state=inactive&latitude=39.9&longitude=116.4'']\<rparr>))
   \<and> invoke (near_env [(''127.0.0.1:8973'', 2)] ''tcp@127.0.0.1:8973'')
       ((serving Closest [''tcp@127.0.0.1:8972''] Map.empty [RegistryGet])
            \<lparr>metadata := [''tcp@127.0.0.1:8972'' \<mapsto> ''weight=1'',
                          ''tcp@127.0.0.1:8973'' \<mapsto> ''state=inactive&latitude=39.9&longitude=116.4'']\<rparr>)
       (CallPull (listing [(''tcp@127.0.0.1:8972'', ''weight=1'')]))
     = Inr ((serving Closest [''tcp@127.0.0.1:8972''] Map.empty [RegistryGet, RegistryGet])
            \<lparr>metadata := [''tcp@127.0.0.1:8973'' \<mapsto> ''state=inactive&latitude=39.9&longitude=116.4'',
                          ''tcp@127.0.0.1:8972'' \<mapsto> ''weight=1'']\<rparr>)
   \<and> metadata ((serving Closest [''tcp@127.0.0.1:8972''] Map.empty [RegistryGet, RegistryGet])
            \<lparr>metadata := [''tcp@127.0.0.1:8973'' \<mapsto> ''state=inactive&latitude=39.9&longitude=116.4'',
                          ''tcp@127.0.0.1:8972'' \<mapsto> ''weight=1'']\<rparr>) ''tcp@127.0.0.1:8973''
     = Some ''state=inactive&latitude=39.9&longitude=116.4''
   \<and> getClosestServer (near_env [(''127.0.0.1:8973'', 2)] ''tcp@127.0.0.1:8973'') 0 0
       (metadata ((serving Closest [''tcp@127.0.0.1:8972''] Map.empty [RegistryGet, RegistryGet])
            \<lparr>metadata := [''tcp@127.0.0.1:8973'' \<mapsto> ''state=inactive&latitude=39.9&longitude=116.4'',
                          ''tcp@127.0.0.1:8972'' \<mapsto> ''weight=1'']\<rparr>))
     = [''tcp@127.0.0.1:8973'']
   \<and> outcome (Select (near_env [(''127.0.0.1:8973'', 2)] ''tcp@127.0.0.1:8973'')
        ((serving Closest [''tcp@127.0.0.1:8972''] Map.empty [RegistryGet, RegistryGet])
            \<lparr>metadata := [''tcp@127.0.0.1:8973'' \<mapsto> ''state=inactive&latitude=39.9&longitude=116.4'',
                          ''tcp@127.0.0.1:8972'' \<mapsto> ''weight=1'']\<rparr>) 0 [])
     = Inr (Some 2, None)"
proof -
  let ?e = "near_env [(''127.0.0.1:8973'', 2)] ''tcp@127.0.0.1:8973''"
  let ?s0 = "empty_selector ''/rpcx/Arith'' Closest"
  let ?L = "listing [(''tcp@127.0.0.1:8972'', ''weight=1''),
               (''tcp@127.0.0.1:8973'', ''state=inactive&latitude=39.9&longitude=116.4'')]"
  let ?L1 = "listing [(''tcp@127.0.0.1:8972'', ''weight=1'')]"
  let ?s1 = "(serving Closest [''tcp@127.0.0.1:8972''] Map.empty [RegistryGet])
            \<lparr>metadata := [''tcp@127.0.0.1:8972'' \<mapsto> ''weight=1'',
                          ''tcp@127.0.0.1:8973'' \<mapsto> ''state=inactive&latitude=39.9&longitude=116.4'']\<rparr>"
  let ?s2 = "(serving Closest [''tcp@127.0.0.1:8972''] Map.empty [RegistryGet, RegistryGet])
            \<lparr>metadata := [''tcp@127.0.0.1:8973'' \<mapsto> ''state=inactive&latitude=39.9&longitude=116.4'',
                          ''tcp@127.0.0.1:8972'' \<mapsto> ''weight=1'']\<rparr>"
  have run1: "invoke ?e ?s0 (CallPull ?L) = Inr ?s1"
    using sample_pull_inactive by simp
  have run2: "invoke ?e ?s1 (CallPull ?L1) = Inr ?s2"
    using sample_pull_again by simp
  have nodes1: "listed_nodes (CallPull ?L) =
      [MkNode ''/rpcx/Arith/tcp@127.0.0.1:8972'' ''weight=1'' False [],
       MkNode ''/rpcx/Arith/tcp@127.0.0.1:8973'' ''state=inactive&latitude=39.9&longitude=116.4'' False []]"
    by (simp add: listed_nodes_def pulled_nodes_def pulled_children_def listing_def)
  have nodes2: "listed_nodes (CallPull ?L1) = [MkNode ''/rpcx/Arith/tcp@127.0.0.1:8972'' ''weight=1'' False []]"
    by (simp add: listed_nodes_def pulled_nodes_def pulled_children_def listing_def)
  note m1 = metadata_never_shrinks [OF run1, of "''tcp@127.0.0.1:8973''" 0 "[]"]
  note m2 = metadata_never_shrinks [OF run2, of "''tcp@127.0.0.1:8973''" 0 "[]"]
  from m1 have "metadata ?s1 = enter_nodes (BasePath ?s0) (metadata ?s0) (listed_nodes (CallPull ?L))"
    by blast
  then have v1: "metadata ?s1 ''tcp@127.0.0.1:8973''
      = Some ''state=inactive&latitude=39.9&longitude=116.4''"
    unfolding nodes1 by (simp add: empty_selector_def TrimPrefix_def)
  have notin: "''tcp@127.0.0.1:8973'' \<notin> server_key ?s1 ` set (listed_nodes (CallPull ?L1))"
    unfolding nodes2 by (simp add: server_key_def serving_def TrimPrefix_def)
  from m2 notin have "metadata ?s2 ''tcp@127.0.0.1:8973'' = metadata ?s1 ''tcp@127.0.0.1:8973''"
    by blast
  with v1 have v2: "metadata ?s2 ''tcp@127.0.0.1:8973''
      = Some ''state=inactive&latitude=39.9&longitude=116.4''"
    by simp
  have near: "getClosestServer ?e 0 0 (metadata ?s2) = [''tcp@127.0.0.1:8973'']"
    using v2 sample_coordinates by (simp add: near_env_def)
  have pre: "SelectMode ?s2 = Closest \<and> len ?s2 \<noteq> 0 \<and> Latitude ?s2 = 0 \<and> Longitude ?s2 = 0"
    by (simp add: serving_def)
  have dial: "outcome (getCachedClient ?e ?s2 ''tcp@127.0.0.1:8973'') = Inr (Some 2, None)"
    by (simp add: outcome_getCachedClient lookup_client_def serving_def near_env_def sample_env_def
        table_dial_def)
  from m2 have "SelectMode ?s2 = Closest \<and> len ?s2 \<noteq> 0
         \<and> getClosestServer ?e (Latitude ?s2) (Longitude ?s2) (metadata ?s2) = [''tcp@127.0.0.1:8973'']
        \<longrightarrow> Select ?e ?s2 0 [] = getCachedClient ?e ?s2 ''tcp@127.0.0.1:8973''"
    by blast
  with near pre have "Select ?e ?s2 0 [] = getCachedClient ?e ?s2 ''tcp@127.0.0.1:8973''"
    by simp
  moreover have "''tcp@127.0.0.1:8973'' \<notin> set (Servers ?s1)"
    by (simp add: serving_def)
  ultimately show ?thesis
    using run1 run2 v2 near dial by simp
qed

subsection \<open>The watch loop\<close>

lemma pullServers_pulls:
  "pullServers e s get = Inr s' \<Longrightarrow> pulls s' = Suc (pulls s)"
  using pullServers_result by blast

text \<open>
  C4 (as amended).  For a notification whose action is expire, set, update or delete, the
  body of the watch loop calls \<open>pullServers\<close>: it panics where the pull panics, and every
  normal return has made exactly one more get of the registry and has the servers, the
  weighted records, the length, the cursor, the metadata and the effects that the pull
  returned.  For set, update and delete the body is the pull and nothing else; for expire
  it is the pull followed, for a node that is not a directory, by the deletion of the
  node's key from the connection cache, and nothing else.  For any other action (create,
  compareAndSwap, compareAndDelete) the body does nothing.  The loop runs the body to its
  end before it reads the next notification.
\<close>

theorem watch_step_pulls_on_named_actions:
  "(if Action res \<in> {''expire'', ''set'', ''update'', ''delete''}
    then (\<forall>p. pullServers e s get = Inl p \<longrightarrow> watch_step e s res get = Inl p)
       \<and> (\<forall>s'. watch_step e s res get = Inr s' \<longrightarrow>
             pulls s' = Suc (pulls s)
             \<and> (\<exists>s1. pullServers e s get = Inr s1
                  \<and> Servers s' = Servers s1 \<and> WeightedServers s' = WeightedServers s1
                  \<and> len s' = len s1 \<and> currentServer s' = currentServer s1
                  \<and> metadata s' = metadata s1 \<and> effects s' = effects s1
                  \<and> (\<forall>k. clientAndServer s' k = clientAndServer s1 k \<or> clientAndServer s' k = None)))
       \<and> (Action res \<noteq> ''expire'' \<longrightarrow> watch_step e s res get = pullServers e s get)
       \<and> (Action res = ''expire'' \<longrightarrow>
             watch_step e s res get =
               (case pullServers e s get of
                  Inl p \<Rightarrow> Inl p
                | Inr s1 \<Rightarrow>
                    (case Node res of
                       None \<Rightarrow> Inl NilDereference
                     | Some n \<Rightarrow>
                         Inr (if Dir n then s1
                              else s1\<lparr>clientAndServer := (clientAndServer s1)(server_key s1 n := None)\<rparr>))))
    else watch_step e s res get = Inr s)
   \<and> watch e s (((res, None), get) # rest) =
       (case watch_step e s res get of Inl p \<Rightarrow> Inl p | Inr s1 \<Rightarrow> watch e s1 rest)"
proof -
  let ?A = "{''expire'', ''set'', ''update'', ''delete''}"
  have ex: "watch_step e s res get =
               (case pullServers e s get of
                  Inl p \<Rightarrow> Inl p
                | Inr s1 \<Rightarrow>
                    (case Node res of
                       None \<Rightarrow> Inl NilDereference
                     | Some n \<Rightarrow>
                         Inr (if Dir n then s1
                              else s1\<lparr>clientAndServer := (clientAndServer s1)(server_key s1 n := None)\<rparr>)))"
    if "Action res = ''expire''"
    using that
    by (simp add: watch_step_def server_key_def Let_def split: sum.splits option.splits)
  have c: "watch_step e s res get = pullServers e s get"
    if "Action res \<in> ?A" and "Action res \<noteq> ''expire''"
    using that by (auto simp: watch_step_def)
  have a: "watch_step e s res get = Inl p" if "Action res \<in> ?A" and "pullServers e s get = Inl p" for p
  proof (cases "Action res = ''expire''")
    case True
    from ex [OF True] that(2) show ?thesis by simp
  next
    case False
    from c [OF that(1) False] that(2) show ?thesis by simp
  qed
  have b: "pulls s' = Suc (pulls s)
             \<and> (\<exists>s1. pullServers e s get = Inr s1
                  \<and> Servers s' = Servers s1 \<and> WeightedServers s' = WeightedServers s1
                  \<and> len s' = len s1 \<and> currentServer s' = currentServer s1
                  \<and> metadata s' = metadata s1 \<and> effects s' = effects s1
                  \<and> (\<forall>k. clientAndServer s' k = clientAndServer s1 k \<or> clientAndServer s' k = None))"
    if "Action res \<in> ?A" and w: "watch_step e s res get = Inr s'" for s'
  proof (cases "Action res = ''expire''")
    case True
    from w ex [OF True] obtain s1 n where p: "pullServers e s get = Inr s1" and
      q: "s' = (if Dir n then s1
                else s1\<lparr>clientAndServer := (clientAndServer s1)(server_key s1 n := None)\<rparr>)"
      by (auto split: sum.splits option.splits)
    from q have "Servers s' = Servers s1 \<and> WeightedServers s' = WeightedServers s1
                  \<and> len s' = len s1 \<and> currentServer s' = currentServer s1
                  \<and> metadata s' = metadata s1 \<and> effects s' = effects s1
                  \<and> (\<forall>k. clientAndServer s' k = clientAndServer s1 k \<or> clientAndServer s' k = None)"
      by simp
    moreover from this pullServers_pulls [OF p] have "pulls s' = Suc (pulls s)"
      by (simp add: pulls_def)
    ultimately show ?thesis using p by blast
  next
    case False
    from c [OF that(1) False] w have p: "pullServers e s get = Inr s'" by simp
    from pullServers_pulls [OF p] p show ?thesis by auto
  qed
  have d: "watch_step e s res get = Inr s" if "Action res \<notin> ?A"
    using that by (auto simp: watch_step_def)
  have w: "watch e s (((res, None), get) # rest) =
       (case watch_step e s res get of Inl p \<Rightarrow> Inl p | Inr s1 \<Rightarrow> watch e s1 rest)"
    by simp
  show ?thesis
  proof (cases "Action res \<in> ?A")
    case True
    have 1: "\<forall>p. pullServers e s get = Inl p \<longrightarrow> watch_step e s res get = Inl p"
      using a [OF True] by blast
    note 2 = b [OF True] and 3 = c [OF True]
    show ?thesis
      unfolding if_P [OF True] using 1 2 3 ex w by blast
  next
    case False
    show ?thesis
      unfolding if_not_P [OF False] using d [OF False] w by blast
  qed
qed

lemma sample_set_step:
  "watch_step (sample_env []) (serving RoundRobin [''tcp@127.0.0.1:8972''] Map.empty [RegistryGet])
     (notification ''set'' ''tcp@127.0.0.1:8973'' ''weight=1'')
     (listing [(''tcp@127.0.0.1:8972'', ''weight=1''), (''tcp@127.0.0.1:8973'', ''weight=1'')])
   = Inr (serving RoundRobin [''tcp@127.0.0.1:8972'', ''tcp@127.0.0.1:8973''] Map.empty
            [RegistryGet, RegistryGet])"
  by (simp add: watch_step_def notification_def pullServers_def listing_def
      createWeighted_def createWeighted_step_def removeInactiveServers_def removeInactive_step_def
      remove_at_def lookup_client_def TrimPrefix_def sample_env_def plain_ParseQuery_def plain_Get_def
      plain_Atoi_def digit_of_def Let_def signed_modulo_int_def serving_def)

lemma sample_pull_after_expire:
  "pullServers (sample_env [(''127.0.0.1:8972'', 1)])
     (serving RoundRobin [''tcp@127.0.0.1:8972'', ''tcp@127.0.0.1:8973'']
        [''tcp@127.0.0.1:8973'' \<mapsto> Some 2, ''tcp@127.0.0.1:8972'' \<mapsto> Some 1]
        [RegistryGet, Dial ''tcp'' ''127.0.0.1:8973'', Dial ''tcp'' ''127.0.0.1:8972''])
     (listing [(''tcp@127.0.0.1:8972'', ''weight=1'')])
   = Inr ((serving RoundRobin [''tcp@127.0.0.1:8972'']
        [''tcp@127.0.0.1:8973'' \<mapsto> Some 2, ''tcp@127.0.0.1:8972'' \<mapsto> Some 1]
        [RegistryGet, Dial ''tcp'' ''127.0.0.1:8973'', Dial ''tcp'' ''127.0.0.1:8972'', RegistryGet])
          \<lparr>metadata := [''tcp@127.0.0.1:8973'' \<mapsto> ''weight=1'', ''tcp@127.0.0.1:8972'' \<mapsto> ''weight=1'']\<rparr>)"
  by (simp add: sample_defs)

theorem watch_step_pulls_on_named_actions_witness:
  "Action (notification ''set'' ''tcp@127.0.0.1:8973'' ''weight=1'') \<in> {''expire'', ''set'', ''update'', ''delete''}
   \<and> watch_step (sample_env []) (serving RoundRobin [''tcp@127.0.0.1:8972''] Map.empty [RegistryGet])
       (notification ''set'' ''tcp@127.0.0.1:8973'' ''weight=1'')
       (listing [(''tcp@127.0.0.1:8972'', ''weight=1''), (''tcp@127.0.0.1:8973'', ''weight=1'')])
     = Inr (serving RoundRobin [''tcp@127.0.0.1:8972'', ''tcp@127.0.0.1:8973''] Map.empty
            [RegistryGet, RegistryGet])
   \<and> pulls (serving RoundRobin [''tcp@127.0.0.1:8972'', ''tcp@127.0.0.1:8973''] Map.empty
            [RegistryGet, RegistryGet])
     = Suc (pulls (serving RoundRobin [''tcp@127.0.0.1:8972''] Map.empty [RegistryGet]))
   \<and> Action (notification ''compareAndSwap'' ''tcp@127.0.0.1:8973'' ''weight=1'')
       \<notin> {''expire'', ''set'', ''update'', ''delete''}
   \<and> watch_step (sample_env []) (serving RoundRobin [''tcp@127.0.0.1:8972''] Map.empty [RegistryGet])
       (notification ''compareAndSwap'' ''tcp@127.0.0.1:8973'' ''weight=1'')
       (listing [(''tcp@127.0.0.1:8972'', ''weight=1''), (''tcp@127.0.0.1:8973'', ''weight=1'')])
     = Inr (serving RoundRobin [''tcp@127.0.0.1:8972''] Map.empty [RegistryGet])
   \<and> Action (notification ''expire'' ''tcp@127.0.0.1:8973'' ''weight=1'') = ''expire''
   \<and> watch_step (sample_env [(''127.0.0.1:8972'', 1)])
       (serving RoundRobin [''tcp@127.0.0.1:8972'', ''tcp@127.0.0.1:8973'']
          [''tcp@127.0.0.1:8973'' \<mapsto> Some 2, ''tcp@127.0.0.1:8972'' \<mapsto> Some 1]
          [RegistryGet, Dial ''tcp'' ''127.0.0.1:8973'', Dial ''tcp'' ''127.0.0.1:8972''])
       (notification ''expire'' ''tcp@127.0.0.1:8973'' ''weight=1'')
       (listing [(''tcp@127.0.0.1:8972'', ''weight=1'')])
     = Inr ((serving RoundRobin [''tcp@127.0.0.1:8972'']
          [''tcp@127.0.0.1:8973'' \<mapsto> Some 2, ''tcp@127.0.0.1:8972'' \<mapsto> Some 1]
          [RegistryGet, Dial ''tcp'' ''127.0.0.1:8973'', Dial ''tcp'' ''127.0.0.1:8972'', RegistryGet])
            \<lparr>clientAndServer :=
               [''tcp@127.0.0.1:8973'' \<mapsto> Some 2, ''tcp@127.0.0.1:8972'' \<mapsto> Some 1]
                 (''tcp@127.0.0.1:8973'' := None),
             metadata := [''tcp@127.0.0.1:8973'' \<mapsto> ''weight=1'', ''tcp@127.0.0.1:8972'' \<mapsto> ''weight=1'']\<rparr>)"
proof -
  let ?e = "sample_env []"
  let ?s = "serving RoundRobin [''tcp@127.0.0.1:8972''] Map.empty [RegistryGet]"
  let ?L = "listing [(''tcp@127.0.0.1:8972'', ''weight=1''), (''tcp@127.0.0.1:8973'', ''weight=1'')]"
  let ?e2 = "sample_env [(''127.0.0.1:8972'', 1)]"
  let ?s2 = "serving RoundRobin [''tcp@127.0.0.1:8972'', ''tcp@127.0.0.1:8973'']
          [''tcp@127.0.0.1:8973'' \<mapsto> Some 2, ''tcp@127.0.0.1:8972'' \<mapsto> Some 1]
          [RegistryGet, Dial ''tcp'' ''127.0.0.1:8973'', Dial ''tcp'' ''127.0.0.1:8972'']"
  let ?L1 = "listing [(''tcp@127.0.0.1:8972'', ''weight=1'')]"
  let ?x = "notification ''expire'' ''tcp@127.0.0.1:8973'' ''weight=1''"
  have a1: "Action (notification ''set'' ''tcp@127.0.0.1:8973'' ''weight=1'') \<in> {''expire'', ''set'', ''update'', ''delete''}"
    by (simp add: notification_def)
  have a2: "Action (notification ''compareAndSwap'' ''tcp@127.0.0.1:8973'' ''weight=1'')
       \<notin> {''expire'', ''set'', ''update'', ''delete''}"
    by (simp add: notification_def)
  have a3: "Action ?x = ''expire''" "Action ?x \<in> {''expire'', ''set'', ''update'', ''delete''}"
    by (simp_all add: notification_def)
  from watch_step_pulls_on_named_actions
    [of "notification ''set'' ''tcp@127.0.0.1:8973'' ''weight=1''" ?e ?s ?L "[]"] a1 sample_set_step
  have p: "pulls (serving RoundRobin [''tcp@127.0.0.1:8972'', ''tcp@127.0.0.1:8973''] Map.empty
            [RegistryGet, RegistryGet]) = Suc (pulls ?s)"
    by simp
  from watch_step_pulls_on_named_actions
    [of "notification ''compareAndSwap'' ''tcp@127.0.0.1:8973'' ''weight=1''" ?e ?s ?L "[]"] a2
  have q: "watch_step ?e ?s (notification ''compareAndSwap'' ''tcp@127.0.0.1:8973'' ''weight=1'') ?L = Inr ?s"
    by simp
  from watch_step_pulls_on_named_actions [of ?x ?e2 ?s2 ?L1 "[]"] a3
  have "watch_step ?e2 ?s2 ?x ?L1 =
          (case pullServers ?e2 ?s2 ?L1 of
             Inl p \<Rightarrow> Inl p
           | Inr s1 \<Rightarrow>
               (case Node ?x of
                  None \<Rightarrow> Inl NilDereference
                | Some n \<Rightarrow>
                    Inr (if Dir n then s1
                         else s1\<lparr>clientAndServer := (clientAndServer s1)(server_key s1 n := None)\<rparr>)))"
    by simp
  then have x: "watch_step ?e2 ?s2 ?x ?L1
     = Inr ((serving RoundRobin [''tcp@127.0.0.1:8972'']
          [''tcp@127.0.0.1:8973'' \<mapsto> Some 2, ''tcp@127.0.0.1:8972'' \<mapsto> Some 1]
          [RegistryGet, Dial ''tcp'' ''127.0.0.1:8973'', Dial ''tcp'' ''127.0.0.1:8972'', RegistryGet])
            \<lparr>clientAndServer :=
               [''tcp@127.0.0.1:8973'' \<mapsto> Some 2, ''tcp@127.0.0.1:8972'' \<mapsto> Some 1]
                 (''tcp@127.0.0.1:8973'' := None),
             metadata := [''tcp@127.0.0.1:8973'' \<mapsto> ''weight=1'', ''tcp@127.0.0.1:8972'' \<mapsto> ''weight=1'']\<rparr>)"
    unfolding sample_pull_after_expire
    by (simp add: notification_def server_key_def serving_def TrimPrefix_def)
  show ?thesis
    using a1 a2 a3(1) sample_set_step p q x by simp
qed

text \<open>
  C4 as stated fails for the action create: the selector that knows one server gets the
  notification that a second one was created, and makes no get; a pull would have listed
  both servers.
\<close>

theorem watch_step_create_does_not_pull:
  "watch_step (sample_env []) (serving RoundRobin [''tcp@127.0.0.1:8972''] Map.empty [RegistryGet])
     (notification ''create'' ''tcp@127.0.0.1:8973'' ''weight=1'')
     (listing [(''tcp@127.0.0.1:8972'', ''weight=1''), (''tcp@127.0.0.1:8973'', ''weight=1'')])
   = Inr (serving RoundRobin [''tcp@127.0.0.1:8972''] Map.empty [RegistryGet])
   \<and> pulls (serving RoundRobin [''tcp@127.0.0.1:8972''] Map.empty [RegistryGet]) = 1
   \<and> Servers (serving RoundRobin [''tcp@127.0.0.1:8972''] Map.empty [RegistryGet]) = [''tcp@127.0.0.1:8972'']
   \<and> map_sum id Servers
       (pullServers (sample_env []) (serving RoundRobin [''tcp@127.0.0.1:8972''] Map.empty [RegistryGet])
         (listing [(''tcp@127.0.0.1:8972'', ''weight=1''), (''tcp@127.0.0.1:8973'', ''weight=1'')]))
     = Inr [''tcp@127.0.0.1:8972'', ''tcp@127.0.0.1:8973'']"
proof -
  have 1: "watch_step (sample_env []) (serving RoundRobin [''tcp@127.0.0.1:8972''] Map.empty [RegistryGet])
     (notification ''create'' ''tcp@127.0.0.1:8973'' ''weight=1'')
     (listing [(''tcp@127.0.0.1:8972'', ''weight=1''), (''tcp@127.0.0.1:8973'', ''weight=1'')])
   = Inr (serving RoundRobin [''tcp@127.0.0.1:8972''] Map.empty [RegistryGet])"
    by (simp add: watch_step_def notification_def)
  have 2: "pulls (serving RoundRobin [''tcp@127.0.0.1:8972''] Map.empty [RegistryGet]) = 1
   \<and> Servers (serving RoundRobin [''tcp@127.0.0.1:8972''] Map.empty [RegistryGet]) = [''tcp@127.0.0.1:8972'']"
    by (simp add: pulls_def serving_def)
  have 3: "map_sum id Servers
       (pullServers (sample_env []) (serving RoundRobin [''tcp@127.0.0.1:8972''] Map.empty [RegistryGet])
         (listing [(''tcp@127.0.0.1:8972'', ''weight=1''), (''tcp@127.0.0.1:8973'', ''weight=1'')]))
     = Inr [''tcp@127.0.0.1:8972'', ''tcp@127.0.0.1:8973'']"
    by code_simp
  from 1 2 3 show ?thesis by simp
qed


subsection \<open>The sample states\<close>

text \<open>
  The sample selectors are states of the program: the constructor and calls of \<open>Select\<close>
  produce them.
\<close>

lemma serving_one_reached:
  "NewEtcdClientSelector (sample_env up) ''/rpcx/Arith'' RoundRobin True
     (listing [(''tcp@127.0.0.1:8972'', ''weight=1'')])
   = Inr (serving RoundRobin [''tcp@127.0.0.1:8972''] Map.empty [RegistryGet])"
  by (simp add: sample_defs)

lemma serving_one_closest_reached:
  "NewEtcdClientSelector (sample_env up) ''/rpcx/Arith'' Closest True
     (listing [(''tcp@127.0.0.1:8972'', ''weight=1'')])
   = Inr (serving Closest [''tcp@127.0.0.1:8972''] Map.empty [RegistryGet])"
  by (simp add: sample_defs)

lemma serving_one_connected_reached:
  "Select (sample_env [(''127.0.0.1:8972'', 1)])
     (serving RoundRobin [''tcp@127.0.0.1:8972''] Map.empty [RegistryGet]) 0 []
   = Inr (serving RoundRobin [''tcp@127.0.0.1:8972''] [''tcp@127.0.0.1:8972'' \<mapsto> Some 1]
            [RegistryGet, Dial ''tcp'' ''127.0.0.1:8972''], Some 1, None)"
  by (simp add: Select_def index_at_def getCachedClient_def sample_defs)

lemma serving_two_reached:
  "NewEtcdClientSelector (sample_env up) ''/rpcx/Arith'' RoundRobin True
     (listing [(''tcp@127.0.0.1:8972'', ''weight=1''), (''tcp@127.0.0.1:8973'', ''weight=1'')])
   = Inr (serving RoundRobin [''tcp@127.0.0.1:8972'', ''tcp@127.0.0.1:8973''] Map.empty [RegistryGet])"
  by (simp add: sample_defs)

lemma serving_two_connected_reached:
  "Select (sample_env [(''127.0.0.1:8972'', 1), (''127.0.0.1:8973'', 2)])
     (serving RoundRobin [''tcp@127.0.0.1:8972'', ''tcp@127.0.0.1:8973''] Map.empty [RegistryGet]) 0 []
   = Inr ((serving RoundRobin [''tcp@127.0.0.1:8972'', ''tcp@127.0.0.1:8973'']
            [''tcp@127.0.0.1:8973'' \<mapsto> Some 2]
            [RegistryGet, Dial ''tcp'' ''127.0.0.1:8973''])\<lparr>currentServer := 1\<rparr>, Some 2, None)
   \<and> Select (sample_env [(''127.0.0.1:8972'', 1), (''127.0.0.1:8973'', 2)])
     ((serving RoundRobin [''tcp@127.0.0.1:8972'', ''tcp@127.0.0.1:8973'']
            [''tcp@127.0.0.1:8973'' \<mapsto> Some 2]
            [RegistryGet, Dial ''tcp'' ''127.0.0.1:8973''])\<lparr>currentServer := 1\<rparr>) 0 []
   = Inr (serving RoundRobin [''tcp@127.0.0.1:8972'', ''tcp@127.0.0.1:8973'']
            [''tcp@127.0.0.1:8973'' \<mapsto> Some 2, ''tcp@127.0.0.1:8972'' \<mapsto> Some 1]
            [RegistryGet, Dial ''tcp'' ''127.0.0.1:8973'', Dial ''tcp'' ''127.0.0.1:8972''], Some 1, None)"
  by (simp add: Select_def index_at_def getCachedClient_def sample_defs)


subsection \<open>A listing without children\<close>

text \<open>
  C1.  The claim: when a successful pull lists no children, the server set and the
  connection cache are cleared, the server count is 0 and the next \<open>Select\<close> returns the
  error "No available service".  The code: a selector that serves one server, with a
  cached connection to it, pulls an empty listing.  Only the cache is replaced by an
  empty map; \<open>Servers\<close>, \<open>WeightedServers\<close> and \<open>len\<close> stay, the count is still 1, and
  the next \<open>Select\<close> dials the server that is gone and returns the dial's error.
\<close>

theorem pullServers_empty_listing_keeps_servers:
  "pullServers (sample_env [])
     (serving RoundRobin [''tcp@127.0.0.1:8972''] [''tcp@127.0.0.1:8972'' \<mapsto> Some 1]
        [RegistryGet, Dial ''tcp'' ''127.0.0.1:8972''])
     (listing [])
   = Inr (serving RoundRobin [''tcp@127.0.0.1:8972''] Map.empty
        [RegistryGet, Dial ''tcp'' ''127.0.0.1:8972'', RegistryGet])
   \<and> len (serving RoundRobin [''tcp@127.0.0.1:8972''] Map.empty
        [RegistryGet, Dial ''tcp'' ''127.0.0.1:8972'', RegistryGet]) = 1
   \<and> Servers (serving RoundRobin [''tcp@127.0.0.1:8972''] Map.empty
        [RegistryGet, Dial ''tcp'' ''127.0.0.1:8972'', RegistryGet]) = [''tcp@127.0.0.1:8972'']
   \<and> Select (sample_env [])
        (serving RoundRobin [''tcp@127.0.0.1:8972''] Map.empty
          [RegistryGet, Dial ''tcp'' ''127.0.0.1:8972'', RegistryGet]) 0 []
     = Inr (serving RoundRobin [''tcp@127.0.0.1:8972''] [''tcp@127.0.0.1:8972'' \<mapsto> None]
          [RegistryGet, Dial ''tcp'' ''127.0.0.1:8972'', RegistryGet, Dial ''tcp'' ''127.0.0.1:8972''],
          None, Some ''connection refused'')"
proof -
  have c: "pulled_children (listing []) = Some []"
    by (simp add: pulled_children_def listing_def)
  have 1: "pullServers (sample_env [])
     (serving RoundRobin [''tcp@127.0.0.1:8972''] [''tcp@127.0.0.1:8972'' \<mapsto> Some 1]
        [RegistryGet, Dial ''tcp'' ''127.0.0.1:8972''])
     (listing [])
   = Inr (serving RoundRobin [''tcp@127.0.0.1:8972''] Map.empty
        [RegistryGet, Dial ''tcp'' ''127.0.0.1:8972'', RegistryGet])"
    by (simp add: pullServers_no_children [OF c] serving_def)
  have 2: "Select (sample_env [])
        (serving RoundRobin [''tcp@127.0.0.1:8972''] Map.empty
          [RegistryGet, Dial ''tcp'' ''127.0.0.1:8972'', RegistryGet]) 0 []
     = Inr (serving RoundRobin [''tcp@127.0.0.1:8972''] [''tcp@127.0.0.1:8972'' \<mapsto> None]
          [RegistryGet, Dial ''tcp'' ''127.0.0.1:8972'', RegistryGet, Dial ''tcp'' ''127.0.0.1:8972''],
          None, Some ''connection refused'')"
    by (simp add: Select_def index_at_def getCachedClient_def sample_defs)
  from 1 2 show ?thesis
    by (simp add: serving_def)
qed

subsection \<open>Closest mode without candidates\<close>

text \<open>
  When the proximity ranking returns no server, \<open>Select\<close> in Closest mode calls
  \<open>rnd.Intn(0)\<close>, which panics.
\<close>

lemma Select_Closest_empty:
  assumes "SelectMode s = Closest" and "len s \<noteq> 0"
    and "getClosestServer e (Latitude s) (Longitude s) (metadata s) = []"
  shows "Select e s r opts = Inl InvalidArgumentToIntn"
  using assms by (simp add: Select_def Intn_def)

text \<open>
  C2.  The claim: with no server that has valid coordinates, \<open>Select\<close> in Closest mode
  returns the error "No available service" and never panics.  The code: the selector
  serves one server whose metadata is \<open>weight=1\<close>, the ranking finds no candidate, and
  \<open>Select\<close> panics in \<open>rnd.Intn\<close>.
\<close>

theorem Select_Closest_without_coordinates_panics:
  "Select (sample_env []) (serving Closest [''tcp@127.0.0.1:8972''] Map.empty [RegistryGet]) 0 []
   = Inl InvalidArgumentToIntn"
  by (rule Select_Closest_empty) (simp_all add: serving_def sample_env_def)

subsection \<open>Reporting a failed client\<close>

text \<open>
  C3.  The claim: when the cache holds an entry for the connection passed to
  \<open>HandleFailedClient\<close>, that entry is removed and the connection closed, so the next
  \<open>Select\<close> of the address dials anew.  The code: the cache holds connections 1 and 2 for
  two servers, connection 2 is reported, and the range over the map visits the server
  of connection 1 first.  The loop closes connection 2 and breaks without having reached
  its entry: the entry stays, and the next \<open>getCachedClient\<close> for that server returns the
  closed connection 2 without dialling.
\<close>

theorem HandleFailedClient_leaves_entry:
  "HandleFailedClient
     (serving RoundRobin [''tcp@127.0.0.1:8972'', ''tcp@127.0.0.1:8973'']
        [''tcp@127.0.0.1:8973'' \<mapsto> Some 2, ''tcp@127.0.0.1:8972'' \<mapsto> Some 1]
        [RegistryGet, Dial ''tcp'' ''127.0.0.1:8973'', Dial ''tcp'' ''127.0.0.1:8972''])
     [''tcp@127.0.0.1:8972'', ''tcp@127.0.0.1:8973''] 2
   = serving RoundRobin [''tcp@127.0.0.1:8972'', ''tcp@127.0.0.1:8973'']
        [''tcp@127.0.0.1:8973'' \<mapsto> Some 2, ''tcp@127.0.0.1:8972'' \<mapsto> Some 1]
        [RegistryGet, Dial ''tcp'' ''127.0.0.1:8973'', Dial ''tcp'' ''127.0.0.1:8972'', Close 2]
   \<and> getCachedClient (sample_env [(''127.0.0.1:8972'', 1), (''127.0.0.1:8973'', 2)])
       (serving RoundRobin [''tcp@127.0.0.1:8972'', ''tcp@127.0.0.1:8973'']
          [''tcp@127.0.0.1:8973'' \<mapsto> Some 2, ''tcp@127.0.0.1:8972'' \<mapsto> Some 1]
          [RegistryGet, Dial ''tcp'' ''127.0.0.1:8973'', Dial ''tcp'' ''127.0.0.1:8972'', Close 2])
       ''tcp@127.0.0.1:8973''
     = Inr (serving RoundRobin [''tcp@127.0.0.1:8972'', ''tcp@127.0.0.1:8973'']
          [''tcp@127.0.0.1:8973'' \<mapsto> Some 2, ''tcp@127.0.0.1:8972'' \<mapsto> Some 1]
          [RegistryGet, Dial ''tcp'' ''127.0.0.1:8973'', Dial ''tcp'' ''127.0.0.1:8972'', Close 2],
          Some 2, None)"
  by (simp add: HandleFailedClient_def getCachedClient_def lookup_client_def serving_def)

subsection \<open>An expired node\<close>

text \<open>
  C5.  The claim: on an expire notification for a non-directory node whose address has a
  cached connection, the entry is deleted and the connection closed.  The code: the
  selector holds connection 2 to the server that expires; after the body of the watch
  loop the entry is gone, and no \<open>Close\<close> was called on any connection: the only effect
  added is the get of the pull.
\<close>

theorem watch_expire_does_not_close:
  "map_sum id (cached ''tcp@127.0.0.1:8973'')
     (watch_step (sample_env [(''127.0.0.1:8972'', 1)])
        (serving RoundRobin [''tcp@127.0.0.1:8972'', ''tcp@127.0.0.1:8973'']
          [''tcp@127.0.0.1:8973'' \<mapsto> Some 2, ''tcp@127.0.0.1:8972'' \<mapsto> Some 1]
          [RegistryGet, Dial ''tcp'' ''127.0.0.1:8973'', Dial ''tcp'' ''127.0.0.1:8972''])
        (notification ''expire'' ''tcp@127.0.0.1:8973'' ''weight=1'')
        (listing [(''tcp@127.0.0.1:8972'', ''weight=1'')]))
   = Inr None
   \<and> map_sum id closed
     (watch_step (sample_env [(''127.0.0.1:8972'', 1)])
        (serving RoundRobin [''tcp@127.0.0.1:8972'', ''tcp@127.0.0.1:8973'']
          [''tcp@127.0.0.1:8973'' \<mapsto> Some 2, ''tcp@127.0.0.1:8972'' \<mapsto> Some 1]
          [RegistryGet, Dial ''tcp'' ''127.0.0.1:8973'', Dial ''tcp'' ''127.0.0.1:8972''])
        (notification ''expire'' ''tcp@127.0.0.1:8973'' ''weight=1'')
        (listing [(''tcp@127.0.0.1:8972'', ''weight=1'')]))
   = Inr []
   \<and> map_sum id effects
     (watch_step (sample_env [(''127.0.0.1:8972'', 1)])
        (serving RoundRobin [''tcp@127.0.0.1:8972'', ''tcp@127.0.0.1:8973'']
          [''tcp@127.0.0.1:8973'' \<mapsto> Some 2, ''tcp@127.0.0.1:8972'' \<mapsto> Some 1]
          [RegistryGet, Dial ''tcp'' ''127.0.0.1:8973'', Dial ''tcp'' ''127.0.0.1:8972''])
        (notification ''expire'' ''tcp@127.0.0.1:8973'' ''weight=1'')
        (listing [(''tcp@127.0.0.1:8972'', ''weight=1'')]))
   = Inr [RegistryGet, Dial ''tcp'' ''127.0.0.1:8973'', Dial ''tcp'' ''127.0.0.1:8972'', RegistryGet]"
  by (simp add: watch_step_def notification_def cached_def closed_def sample_defs)

subsection \<open>A miss in the connection cache\<close>

text \<open>
  C8 (as amended).  When the cache reads nil for a server key (the key is absent, or
  present with nil) and the key splits at "@" into a network and an address (and maybe
  more parts), \<open>getCachedClient\<close> dials that network and address once, stores the
  connection the dial returned under the key whether or not the dial failed, and returns
  that connection and the dial's error.  A following call for the same key dials again
  when the stored connection is nil, as after a failed dial, and returns the stored
  connection without dialling and without error otherwise.
\<close>

theorem getCachedClient_miss_dials_and_caches:
  assumes "lookup_client (clientAndServer s) server = None"
    and "Split server (CHR ''@'') = network # address # rest"
    and "NewDirectRPCClient e network address = (c, err)"
  shows "getCachedClient e s server
      = Inr (s\<lparr>clientAndServer := (clientAndServer s)(server \<mapsto> c),
               effects := effects s @ [Dial network address]\<rparr>, c, err)
    \<and> getCachedClient e
        (s\<lparr>clientAndServer := (clientAndServer s)(server \<mapsto> c),
           effects := effects s @ [Dial network address]\<rparr>) server
      = (case c of
           None \<Rightarrow>
             Inr (s\<lparr>clientAndServer := (clientAndServer s)(server \<mapsto> c),
                    effects := effects s @ [Dial network address, Dial network address]\<rparr>, c, err)
         | Some cl \<Rightarrow>
             Inr (s\<lparr>clientAndServer := (clientAndServer s)(server \<mapsto> c),
                    effects := effects s @ [Dial network address]\<rparr>, c, None))"
  using assms
  by (cases c) (simp_all add: getCachedClient_def lookup_client_def)

theorem getCachedClient_miss_dials_and_caches_witness:
  "lookup_client (clientAndServer (serving RoundRobin [''tcp@127.0.0.1:8972''] Map.empty [RegistryGet]))
       ''tcp@127.0.0.1:8972'' = None
   \<and> Split ''tcp@127.0.0.1:8972'' (CHR ''@'') = [''tcp'', ''127.0.0.1:8972'']
   \<and> NewDirectRPCClient (sample_env [(''127.0.0.1:8972'', 1)]) ''tcp'' ''127.0.0.1:8972'' = (Some 1, None)
   \<and> getCachedClient (sample_env [(''127.0.0.1:8972'', 1)])
       (serving RoundRobin [''tcp@127.0.0.1:8972''] Map.empty [RegistryGet]) ''tcp@127.0.0.1:8972''
     = Inr (serving RoundRobin [''tcp@127.0.0.1:8972''] [''tcp@127.0.0.1:8972'' \<mapsto> Some 1]
              [RegistryGet, Dial ''tcp'' ''127.0.0.1:8972''], Some 1, None)
   \<and> getCachedClient (sample_env [(''127.0.0.1:8972'', 1)])
       (serving RoundRobin [''tcp@127.0.0.1:8972''] [''tcp@127.0.0.1:8972'' \<mapsto> Some 1]
              [RegistryGet, Dial ''tcp'' ''127.0.0.1:8972'']) ''tcp@127.0.0.1:8972''
     = Inr (serving RoundRobin [''tcp@127.0.0.1:8972''] [''tcp@127.0.0.1:8972'' \<mapsto> Some 1]
              [RegistryGet, Dial ''tcp'' ''127.0.0.1:8972''], Some 1, None)
   \<and> NewDirectRPCClient (sample_env []) ''tcp'' ''127.0.0.1:8972'' = (None, Some ''connection refused'')
   \<and> getCachedClient (sample_env [])
       (serving RoundRobin [''tcp@127.0.0.1:8972''] Map.empty [RegistryGet]) ''tcp@127.0.0.1:8972''
     = Inr (serving RoundRobin [''tcp@127.0.0.1:8972''] [''tcp@127.0.0.1:8972'' \<mapsto> None]
              [RegistryGet, Dial ''tcp'' ''127.0.0.1:8972''], None, Some ''connection refused'')
   \<and> getCachedClient (sample_env [])
       (serving RoundRobin [''tcp@127.0.0.1:8972''] [''tcp@127.0.0.1:8972'' \<mapsto> None]
              [RegistryGet, Dial ''tcp'' ''127.0.0.1:8972'']) ''tcp@127.0.0.1:8972''
     = Inr (serving RoundRobin [''tcp@127.0.0.1:8972''] [''tcp@127.0.0.1:8972'' \<mapsto> None]
              [RegistryGet, Dial ''tcp'' ''127.0.0.1:8972'', Dial ''tcp'' ''127.0.0.1:8972''],
            None, Some ''connection refused'')"
proof -
  let ?s = "serving RoundRobin [''tcp@127.0.0.1:8972''] Map.empty [RegistryGet]"
  let ?up = "sample_env [(''127.0.0.1:8972'', 1)]"
  let ?down = "sample_env []"
  have a: "lookup_client (clientAndServer ?s) ''tcp@127.0.0.1:8972'' = None"
    by (simp add: lookup_client_def serving_def)
  have b: "Split ''tcp@127.0.0.1:8972'' (CHR ''@'') = [''tcp'', ''127.0.0.1:8972'']"
    by simp
  have c: "NewDirectRPCClient ?up ''tcp'' ''127.0.0.1:8972'' = (Some 1, None)"
    by (simp add: sample_env_def table_dial_def)
  have c': "NewDirectRPCClient ?down ''tcp'' ''127.0.0.1:8972'' = (None, Some ''connection refused'')"
    by (simp add: sample_env_def table_dial_def)
  have d: "?s\<lparr>clientAndServer := (clientAndServer ?s)(''tcp@127.0.0.1:8972'' \<mapsto> p),
              effects := effects ?s @ eff\<rparr>
      = serving RoundRobin [''tcp@127.0.0.1:8972''] [''tcp@127.0.0.1:8972'' \<mapsto> p] (RegistryGet # eff)"
    for p eff
    by (simp add: serving_def)
  from getCachedClient_miss_dials_and_caches [OF a b c]
       getCachedClient_miss_dials_and_caches [OF a b c']
  show ?thesis
    unfolding d using a b c c' by simp
qed

text \<open>
  C8 as stated fails: after a dial that was refused, the key is in the cache with nil, and
  the next call for the same key dials a second time.
\<close>

theorem getCachedClient_failed_dial_is_retried:
  "getCachedClient (sample_env [])
       (serving RoundRobin [''tcp@127.0.0.1:8972''] Map.empty [RegistryGet]) ''tcp@127.0.0.1:8972''
     = Inr (serving RoundRobin [''tcp@127.0.0.1:8972''] [''tcp@127.0.0.1:8972'' \<mapsto> None]
              [RegistryGet, Dial ''tcp'' ''127.0.0.1:8972''], None, Some ''connection refused'')
   \<and> getCachedClient (sample_env [])
       (serving RoundRobin [''tcp@127.0.0.1:8972''] [''tcp@127.0.0.1:8972'' \<mapsto> None]
              [RegistryGet, Dial ''tcp'' ''127.0.0.1:8972'']) ''tcp@127.0.0.1:8972''
     = Inr (serving RoundRobin [''tcp@127.0.0.1:8972''] [''tcp@127.0.0.1:8972'' \<mapsto> None]
              [RegistryGet, Dial ''tcp'' ''127.0.0.1:8972'', Dial ''tcp'' ''127.0.0.1:8972''],
            None, Some ''connection refused'')
   \<and> dials (serving RoundRobin [''tcp@127.0.0.1:8972''] [''tcp@127.0.0.1:8972'' \<mapsto> None]
              [RegistryGet, Dial ''tcp'' ''127.0.0.1:8972'', Dial ''tcp'' ''127.0.0.1:8972'']) = 2"
  by (simp add: getCachedClient_def lookup_client_def serving_def sample_env_def table_dial_def dials_def)

subsection \<open>A server key without the separator\<close>

lemma Split_without_separator: "sep \<notin> set s \<Longrightarrow> Split s sep = [s]"
  by (induction s) auto

lemma getCachedClient_without_separator:
  "CHR ''@'' \<notin> set server \<Longrightarrow> lookup_client (clientAndServer s) server = None \<Longrightarrow>
     getCachedClient e s server = Inl IndexOutOfRange"
  by (simp add: getCachedClient_def Split_without_separator)

lemma AllClients_loop_without_separator:
  "\<exists>sv \<in> set svs. CHR ''@'' \<notin> set sv \<Longrightarrow> AllClients_loop e svs eff clients = Inl IndexOutOfRange"
proof (induction svs arbitrary: eff clients)
  case Nil
  then show ?case by simp
next
  case (Cons sv svs)
  show ?case
  proof (cases "CHR ''@'' \<in> set sv")
    case False
    then show ?thesis by (simp add: Split_without_separator)
  next
    case True
    with Cons.prems have "\<exists>sv \<in> set svs. CHR ''@'' \<notin> set sv" by auto
    from Cons.IH [OF this] show ?thesis
      by (simp add: Let_def split: prod.splits)
  qed
qed

lemma AllClients_without_separator:
  "\<exists>sv \<in> set (Servers s). CHR ''@'' \<notin> set sv \<Longrightarrow> AllClients e s = Inl IndexOutOfRange"
  by (simp add: AllClients_def AllClients_loop_without_separator)

lemma serving_malformed_reached:
  "NewEtcdClientSelector (sample_env up) ''/rpcx/Arith'' RoundRobin True
     (listing [(''127.0.0.1:8972'', ''weight=1'')])
   = Inr (serving RoundRobin [''127.0.0.1:8972''] Map.empty [RegistryGet])"
  by (simp add: sample_defs)

text \<open>
  C9.  The claim: for a server key without "@", \<open>getCachedClient\<close> and \<open>AllClients\<close>
  fail with an error and do not panic.  The code: the registry lists the key
  \<open>127.0.0.1:8972\<close>; \<open>strings.Split\<close> gives one part and reading the second one panics
  with index out of range, in \<open>getCachedClient\<close>, in \<open>Select\<close> through it, and in
  \<open>AllClients\<close>.
\<close>

theorem key_without_separator_panics:
  "getCachedClient (sample_env [(''127.0.0.1:8972'', 1)])
     (serving RoundRobin [''127.0.0.1:8972''] Map.empty [RegistryGet]) ''127.0.0.1:8972''
   = Inl IndexOutOfRange
   \<and> Select (sample_env [(''127.0.0.1:8972'', 1)])
     (serving RoundRobin [''127.0.0.1:8972''] Map.empty [RegistryGet]) 0 []
   = Inl IndexOutOfRange
   \<and> AllClients (sample_env [(''127.0.0.1:8972'', 1)])
     (serving RoundRobin [''127.0.0.1:8972''] Map.empty [RegistryGet])
   = Inl IndexOutOfRange"
proof -
  let ?s = "serving RoundRobin [''127.0.0.1:8972''] Map.empty [RegistryGet]"
  let ?e = "sample_env [(''127.0.0.1:8972'', 1)]"
  have 1: "getCachedClient ?e ?s ''127.0.0.1:8972'' = Inl IndexOutOfRange"
    by (rule getCachedClient_without_separator) (simp_all add: lookup_client_def serving_def)
  have 2: "Select ?e ?s 0 [] = Inl IndexOutOfRange"
    by (simp add: Select_def index_at_def getCachedClient_without_separator lookup_client_def
        serving_def signed_modulo_int_def)
  have 3: "AllClients ?e ?s = Inl IndexOutOfRange"
    by (rule AllClients_without_separator) (simp add: serving_def)
  from 1 2 3 show ?thesis by simp
qed


subsection \<open>A pull returns\<close>

text \<open>The selector as constructed is aligned.\<close>

lemma empty_selector_aligned: "aligned (empty_selector servicePath sm)"
  by (simp add: aligned_def empty_selector_def)

text \<open>
  Outside the ICMP mode a pull never panics: the indices \<open>createWeighted\<close> collects are
  increasing and within the slices, and \<open>removeInactiveServers\<close> takes them from the last
  to the first, so each is still in range when its turn comes.
\<close>

lemma createWeighted_step_returns:
  assumes "i < length (WeightedServers s)"
  shows "\<exists>s1 inact1. createWeighted_step e s inact i n = Inr (s1, inact1)
    \<and> length (WeightedServers s1) = length (WeightedServers s) \<and> Servers s1 = Servers s
    \<and> clientAndServer s1 = clientAndServer s
    \<and> (inact1 = inact \<or> inact1 = inact @ [i])"
  using assms
  by (cases "ParseQuery e (Value n)") (auto simp: createWeighted_step_def Let_def)

lemma createWeighted_loop_returns:
  assumes "i + length ns \<le> length (WeightedServers s)"
    and "sorted_wrt (<) inact" and "\<forall>k \<in> set inact. k < i"
  shows "\<exists>s1 inact1. createWeighted_loop e s inact i ns = Inr (s1, inact1)
    \<and> length (WeightedServers s1) = length (WeightedServers s) \<and> Servers s1 = Servers s
    \<and> sorted_wrt (<) inact1 \<and> (\<forall>k \<in> set inact1. k < i + length ns)"
  using assms
proof (induction ns arbitrary: s inact i)
  case Nil
  then show ?case by simp
next
  case (Cons n ns)
  from Cons.prems(1) have "i < length (WeightedServers s)" by simp
  from createWeighted_step_returns [OF this, of e inact n] obtain s2 inact2 where
    st: "createWeighted_step e s inact i n = Inr (s2, inact2)" and
    f: "length (WeightedServers s2) = length (WeightedServers s)" "Servers s2 = Servers s" and
    i2: "inact2 = inact \<or> inact2 = inact @ [i]"
    by blast
  have a: "Suc i + length ns \<le> length (WeightedServers s2)"
    using Cons.prems(1) f by simp
  have b: "sorted_wrt (<) inact2"
    using i2 Cons.prems(2,3) by (auto simp: sorted_wrt_append)
  have c: "\<forall>k \<in> set inact2. k < Suc i"
    using i2 Cons.prems(3) by (auto simp: less_Suc_eq)
  from Cons.IH [OF a b c] st f show ?case
    by auto
qed

lemma removeInactive_loop_returns:
  assumes "length (WeightedServers s) = length (Servers s)"
    and "sorted_wrt (>) ks" and "\<forall>k \<in> set ks. k < length (Servers s)"
  shows "\<exists>s1. removeInactive_loop s ks = Inr s1"
  using assms
proof (induction ks arbitrary: s)
  case Nil
  then show ?case by simp
next
  case (Cons k ks)
  from Cons.prems have k: "k < length (Servers s)" "k < length (WeightedServers s)"
    by simp_all
  then obtain s2 where st: "removeInactive_step s k = Inr s2"
    by (cases "lookup_client (clientAndServer s) (Servers s ! k)")
       (auto simp: removeInactive_step_def Let_def)
  from removeInactive_step_frame [OF st] have
    f: "Servers s2 = remove_at (Servers s) k" "WeightedServers s2 = remove_at (WeightedServers s) k"
    by simp_all
  have l: "length (Servers s2) = length (Servers s) - 1" "length (WeightedServers s2) = length (Servers s) - 1"
    using k Cons.prems(1) by (simp_all add: f remove_at_def)
  have "\<forall>j \<in> set ks. j < length (Servers s2)"
    using Cons.prems(2) k l by auto
  moreover have "sorted_wrt (>) ks"
    using Cons.prems(2) by simp
  ultimately obtain s1 where "removeInactive_loop s2 ks = Inr s1"
    using Cons.IH [of s2] l by auto
  with st show ?case by simp
qed

lemma createWeighted_returns:
  assumes "length nodes = length (Servers s)"
  shows "\<exists>s1. createWeighted e s nodes = Inr s1"
proof -
  let ?s0 = "s\<lparr>WeightedServers := replicate (length (Servers s)) None\<rparr>"
  have "0 + length nodes \<le> length (WeightedServers ?s0)"
    using assms by simp
  from createWeighted_loop_returns [OF this, of "[]" e] obtain s2 inact where
    lp: "createWeighted_loop e ?s0 [] 0 nodes = Inr (s2, inact)" and
    f: "length (WeightedServers s2) = length (WeightedServers ?s0)" "Servers s2 = Servers ?s0"
       "sorted_wrt (<) inact" "\<forall>k \<in> set inact. k < 0 + length nodes"
    by auto
  have "sorted_wrt (>) (rev inact)"
    using f(3) by (simp add: sorted_wrt_rev)
  moreover have "length (WeightedServers s2) = length (Servers s2)"
    using f by simp
  moreover have "\<forall>k \<in> set (rev inact). k < length (Servers s2)"
    using f assms by simp
  ultimately obtain s1 where "removeInactive_loop s2 (rev inact) = Inr s1"
    using removeInactive_loop_returns by blast
  with lp show ?thesis
    by (simp add: createWeighted_def removeInactiveServers_def)
qed

lemma pullServers_returns:
  assumes "SelectMode s \<noteq> WeightedICMP"
  shows "\<exists>s'. pullServers e s get = Inr s'"
proof -
  from pullServers_cases [of get]
  consider "pull_failed get" | "pulled_children get = Some []" | "has_children get"
    by blast
  then show ?thesis
  proof cases
    case 1
    then show ?thesis by (simp add: pullServers_failed)
  next
    case 2
    then show ?thesis by (simp add: pullServers_no_children)
  next
    case 3
    then obtain nodes where n: "pulled_children get = Some nodes" "nodes \<noteq> []"
      by (auto simp: has_children_def split: option.splits list.splits)
    from pulled_children_cases [OF n(1)] obtain resp nd where
      g: "get = (resp, None)" "Node resp = Some nd" "Nodes nd = nodes"
      by blast
    let ?s = "s\<lparr>effects := effects s @ [RegistryGet]\<rparr>"
    let ?sv = "?s\<lparr>Servers := map (\<lambda>n. TrimPrefix (Key n) (BasePath ?s @ ''/'')) nodes\<rparr>"
    have "length nodes = length (Servers ?sv)" by simp
    from createWeighted_returns [OF this, of e] obtain s1 where
      cw: "createWeighted e ?sv nodes = Inr s1"
      by blast
    from createWeighted_result [OF cw] assms have "SelectMode s1 \<noteq> WeightedICMP"
      by simp
    with cw g n(2) show ?thesis
      by (simp add: pullServers_def Let_def)
  qed
qed


end
